theory Spec2Isabelle
  imports Complex_Main "HOL-Library.Sublist"
begin

section \<open>Data model\<close>

text \<open>
  The decoder of \<^verbatim>\<open>tensorrt_llm/_torch/pyexecutor/decoder.py\<close> commits sampled tokens
  into requests. The request class (\<^verbatim>\<open>LlmRequest\<close>) and the scheduled batch
  (\<^verbatim>\<open>ScheduledRequests\<close>) live in sibling modules; they are represented here by the
  attributes and methods that the decoder reads and writes. Python integers are \<open>int\<close>,
  scores are real numbers (rounding and NaN of floating point are not represented),
  raised exceptions are values of \<open>error\<close>.
\<close>

datatype error =
  AssertionError | IndexError | RuntimeError | ValueError | AttributeError | TypeError

datatype LlmRequestState = CONTEXT_INIT | GENERATION_IN_PROGRESS | GENERATION_COMPLETE

datatype FinishReason = NOT_FINISHED | END_ID | STOP_WORDS | LENGTH

text \<open>
  A tensor of scores of any rank: \<open>Scalar\<close> is rank 0, \<open>Tensor ts\<close> stacks the
  sub-tensors \<open>ts\<close> along a new leading axis.
\<close>

datatype tensor = Scalar real | Tensor "tensor list"

text \<open>
  The request, by the attributes the decoder uses. \<open>tokens\<close> and \<open>finished_reason\<close>
  are indexed by the beam; \<open>py_stop_words_list\<close> is the flat phrase list with its
  prefix sums, \<open>None\<close> when the attribute is empty; \<open>py_draft_tokens\<close> is \<open>None\<close>
  for a request without draft tokens; \<open>top_k\<close> and \<open>top_p\<close> are the fields of
  \<^verbatim>\<open>sampling_config\<close>; the last three fields are what \<^verbatim>\<open>py_result\<close> has collected.
\<close>

record LlmRequest =
  state :: LlmRequestState
  tokens :: "nat \<Rightarrow> int list"
  finished_reason :: "nat \<Rightarrow> FinishReason"
  context_remaining_length :: int
  py_end_id :: int
  py_orig_prompt_len :: int
  py_max_new_tokens :: int
  py_stop_words_list :: "(int list \<times> int list) option"
  py_draft_tokens :: "int list option"
  py_draft_pages_allocated :: int
  py_decoding_iter :: int
  py_num_accepted_draft_tokens :: int
  py_rewind_len :: int
  py_return_context_logits :: bool
  py_return_generation_logits :: bool
  py_return_log_probs :: bool
  top_k :: "int list option"
  top_p :: "real list option"
  context_logits :: "tensor list"
  generation_logits :: "real list list list"
  log_probs_result :: "real list list list"

text \<open>
  Modelled from the spec: \<^verbatim>\<open>LlmRequest.add_new_token(token, beam)\<close>, of the module
  \<^verbatim>\<open>llm_request\<close> that is not among the sources. It is the commit: the token is appended
  to the sequence of the beam, and the new total token count of the beam is returned.
\<close>

definition add_new_token :: "LlmRequest \<Rightarrow> int \<Rightarrow> nat \<Rightarrow> LlmRequest \<times> int" where
  "add_new_token request new_token beam_idx =
     (let toks = tokens request beam_idx @ [new_token]
      in (request\<lparr>tokens := (tokens request)(beam_idx := toks)\<rparr>, int (length toks)))"

text \<open>
  Modelled from the spec: \<^verbatim>\<open>LlmRequest.set_finished_reason(reason, beam)\<close>, missing as
  above. It stores the finish reason of the beam.
\<close>

definition set_finished_reason :: "LlmRequest \<Rightarrow> FinishReason \<Rightarrow> nat \<Rightarrow> LlmRequest" where
  "set_finished_reason request reason beam_idx =
     request\<lparr>finished_reason := (finished_reason request)(beam_idx := reason)\<rparr>"

text \<open>
  Modelled from the spec: \<^verbatim>\<open>LlmRequest.get_tokens(beam)\<close>, missing as above. It reads the
  token sequence of the beam.
\<close>

definition get_tokens :: "LlmRequest \<Rightarrow> nat \<Rightarrow> int list" where
  "get_tokens request beam_idx = tokens request beam_idx"

text \<open>
  Modelled from the spec: \<^verbatim>\<open>LlmRequest.get_context_remaining_length()\<close>, missing as
  above. It reads the remaining prefill length of a context request.
\<close>

definition get_context_remaining_length :: "LlmRequest \<Rightarrow> int" where
  "get_context_remaining_length request = context_remaining_length request"

section \<open>Python list slicing\<close>

text \<open>
  \<^verbatim>\<open>xs[lo:hi]\<close> clamps both bounds into the list, a negative bound counting from the
  end. \<^verbatim>\<open>xs[-n:]\<close> with \<open>n = 0\<close> is the whole list, since \<open>-0\<close> is \<open>0\<close>.
\<close>

definition py_bound :: "int \<Rightarrow> nat \<Rightarrow> nat" where
  "py_bound i n = (if i < 0 then nat (max 0 (i + int n)) else min (nat i) n)"

definition py_slice :: "'a list \<Rightarrow> int \<Rightarrow> int \<Rightarrow> 'a list" where
  "py_slice xs lo hi =
     (let a = py_bound lo (length xs); b = py_bound hi (length xs)
      in take (b - a) (drop a xs))"

definition py_last_n :: "'a list \<Rightarrow> nat \<Rightarrow> 'a list" where
  "py_last_n xs n = (if n = 0 then xs else drop (length xs - n) xs)"

section \<open>Stop criteria of the simple batched decoder\<close>

definition meet_max_token_stop_criteria :: "int \<Rightarrow> LlmRequest \<Rightarrow> int \<Rightarrow> bool" where
  "meet_max_token_stop_criteria max_seq_len request num_tokens \<longleftrightarrow>
     num_tokens - py_orig_prompt_len request \<ge> py_max_new_tokens request
     \<or> num_tokens \<ge> max_seq_len"

text \<open>
  The loop over \<^verbatim>\<open>enumerate(prefix_sum)\<close>: \<open>offset\<close> is \<open>0\<close> for the first phrase
  and the previous boundary afterwards.
\<close>

fun stop_word_loop :: "int list \<Rightarrow> int list \<Rightarrow> int \<Rightarrow> int list \<Rightarrow> bool" where
  "stop_word_loop toks stop_words_list offset [] = False"
| "stop_word_loop toks stop_words_list offset (offset_end # rest) =
     (let stop_word = py_slice stop_words_list offset offset_end
      in if length stop_word > length toks
         then stop_word_loop toks stop_words_list offset_end rest
         else if py_last_n toks (length stop_word) = stop_word then True
         else stop_word_loop toks stop_words_list offset_end rest)"

definition meet_stop_token_criteria :: "LlmRequest \<Rightarrow> bool" where
  "meet_stop_token_criteria request =
     (case py_stop_words_list request of
        None \<Rightarrow> False
      | Some (stop_words_list, prefix_sum) \<Rightarrow>
          stop_word_loop (get_tokens request 0) stop_words_list 0 prefix_sum)"

definition handle_stop_criteria ::
  "int \<Rightarrow> LlmRequest \<Rightarrow> int \<Rightarrow> int \<Rightarrow> nat \<Rightarrow> LlmRequest \<times> bool" where
  "handle_stop_criteria max_seq_len request new_token num_tokens beam_idx =
     (if new_token = py_end_id request
      then (set_finished_reason (request\<lparr>state := GENERATION_COMPLETE\<rparr>) END_ID beam_idx, True)
      else if meet_max_token_stop_criteria max_seq_len request num_tokens
      then (set_finished_reason (request\<lparr>state := GENERATION_COMPLETE\<rparr>) LENGTH beam_idx, True)
      else if meet_stop_token_criteria request
      then (set_finished_reason (request\<lparr>state := GENERATION_COMPLETE\<rparr>) STOP_WORDS beam_idx, True)
      else (request, False))"

section \<open>Scheduled batch and decoder state\<close>

text \<open>
  \<open>chunked_requests\<close> is \<open>None\<close> when the batch object has no such attribute
  (\<^verbatim>\<open>hasattr\<close> is false).
\<close>

record ScheduledRequests =
  context_requests :: "LlmRequest list"
  generation_requests :: "LlmRequest list"
  chunked_requests :: "LlmRequest list option"

text \<open>
  The state of the simple batched decoder: \<open>logits\<close> is the step's score matrix, one
  row per token row; \<open>log_probs\<close> holds one entry per request as the mixed mode builds
  them (\<^verbatim>\<open>[log_probs.tolist()]\<close> or \<^verbatim>\<open>None\<close>); \<open>new_tokens_host\<close> is
  \<^verbatim>\<open>new_tensors_host["new_tokens_host"].tolist()\<close>. Waiting on the completion event has
  no effect on the data.
\<close>

record DecoderState =
  scheduled_requests :: ScheduledRequests
  logits :: "real list list option"
  log_probs :: "real list list option list option"
  new_tokens_host :: "int list"

section \<open>Early-stop decoder\<close>

fun ndim :: "tensor \<Rightarrow> nat" where
  "ndim (Scalar x) = 0"
| "ndim (Tensor []) = 1"
| "ndim (Tensor (t # ts)) = Suc (ndim t)"

text \<open>\<^verbatim>\<open>unsqueeze(-1)\<close>: every scalar becomes an axis of size one.\<close>

fun unsqueeze_last :: "tensor \<Rightarrow> tensor" where
  "unsqueeze_last (Scalar x) = Tensor [Scalar x]"
| "unsqueeze_last (Tensor ts) = Tensor (map unsqueeze_last ts)"

text \<open>\<^verbatim>\<open>logits[idx]\<close> for an index counted up from zero.\<close>

fun tensor_index :: "tensor \<Rightarrow> nat \<Rightarrow> error + tensor" where
  "tensor_index (Scalar x) idx = Inl IndexError"
| "tensor_index (Tensor ts) idx = (if idx < length ts then Inr (ts ! idx) else Inl IndexError)"

fun early_stop_loop :: "tensor \<Rightarrow> nat \<Rightarrow> LlmRequest list \<Rightarrow> error + LlmRequest list" where
  "early_stop_loop all_logits idx [] = Inr []"
| "early_stop_loop all_logits idx (request # rest) =
     (let request1 = set_finished_reason (request\<lparr>state := GENERATION_COMPLETE\<rparr>) LENGTH 0
      in case tensor_index all_logits idx of
           Inl e \<Rightarrow> Inl e
         | Inr lg \<Rightarrow>
             (let lg1 = (if ndim lg = 1 then unsqueeze_last lg else lg);
                  request2 = request1\<lparr>context_logits := context_logits request1 @ [lg1]\<rparr>
              in case early_stop_loop all_logits (Suc idx) rest of
                   Inl e \<Rightarrow> Inl e
                 | Inr done \<Rightarrow> Inr (request2 # done)))"

definition early_stop_update_requests ::
  "ScheduledRequests \<Rightarrow> tensor \<Rightarrow> error + LlmRequest list" where
  "early_stop_update_requests sched all_logits =
     (if generation_requests sched \<noteq> [] then Inl AssertionError
      else early_stop_loop all_logits 0 (context_requests sched))"

section \<open>Sampling policies\<close>

text \<open>
  The sampling functions are modelled on score inputs of rank 1 (\<open>Vec\<close>) and rank 2
  (\<open>Mat\<close>, a list of rows). A masked score (\<^verbatim>\<open>-inf\<close>) is \<open>None\<close> and has weight
  zero in the softmax. The random draw of \<^verbatim>\<open>torch.multinomial\<close> is a parameter
  \<open>pick\<close>, which maps the probability vector of a row to the index drawn.
\<close>

datatype scores = Vec "real list" | Mat "real list list"

definition softmax :: "real list \<Rightarrow> real list" where
  "softmax xs = map (\<lambda>x. exp x / (\<Sum>y\<leftarrow>xs. exp y)) xs"

fun weight :: "real option \<Rightarrow> real" where
  "weight None = 0"
| "weight (Some x) = exp x"

definition softmax_masked :: "real option list \<Rightarrow> real list" where
  "softmax_masked xs = map (\<lambda>x. weight x / (\<Sum>y\<leftarrow>xs. weight y)) xs"

definition argmax :: "real list \<Rightarrow> nat" where
  "argmax xs = length (takeWhile (\<lambda>x. x < fold max xs (hd xs)) xs)"

fun map_result :: "('a \<Rightarrow> error + 'b) \<Rightarrow> 'a list \<Rightarrow> error + 'b list" where
  "map_result f [] = Inr []"
| "map_result f (x # xs) =
     (case f x of
        Inl e \<Rightarrow> Inl e
      | Inr y \<Rightarrow> (case map_result f xs of Inl e \<Rightarrow> Inl e | Inr ys \<Rightarrow> Inr (y # ys)))"

definition unzip_result :: "error + ('a \<times> 'b) list \<Rightarrow> error + ('a list \<times> 'b list)" where
  "unzip_result r = (case r of Inl e \<Rightarrow> Inl e | Inr ps \<Rightarrow> Inr (map fst ps, map snd ps))"

text \<open>
  \<^verbatim>\<open>torch.topk(logits, top_k)\<close> returns the \<open>top_k\<close> largest values of a row in
  descending order; it raises when \<open>top_k\<close> is not within the row, and
  \<^verbatim>\<open>values[:, -1]\<close> raises on an empty selection.
\<close>

definition topk_values :: "real list \<Rightarrow> nat \<Rightarrow> real list" where
  "topk_values row k = take k (rev (sort row))"

definition top_k_probs :: "real list \<Rightarrow> nat \<Rightarrow> real list" where
  "top_k_probs row k =
     (let min_value = last (topk_values row k)
      in softmax_masked (map (\<lambda>x. if x < min_value then None else Some x) row))"

definition top_k_row :: "(real list \<Rightarrow> nat) \<Rightarrow> int \<Rightarrow> real list \<Rightarrow> error + nat \<times> real" where
  "top_k_row pick top_k_arg row =
     (if top_k_arg < 0 \<or> top_k_arg > int (length row) then Inl RuntimeError
      else if top_k_arg = 0 then Inl IndexError
      else (let raw_probs = softmax row;
                probs = top_k_probs row (nat top_k_arg);
                next_token = pick probs
            in Inr (next_token, ln (raw_probs ! next_token))))"

definition top_k_sampling_batch ::
  "(real list \<Rightarrow> nat) \<Rightarrow> scores \<Rightarrow> int \<Rightarrow> error + nat list \<times> real list" where
  "top_k_sampling_batch pick lg top_k_arg =
     (let rows = (case lg of Vec v \<Rightarrow> [v] | Mat m \<Rightarrow> m)
      in unzip_result (map_result (top_k_row pick top_k_arg) rows))"

fun cumsum :: "real \<Rightarrow> real list \<Rightarrow> real list" where
  "cumsum acc [] = []"
| "cumsum acc (x # xs) = (acc + x) # cumsum (acc + x) xs"

text \<open>
  \<^verbatim>\<open>torch.sort(descending=True)\<close> as a stable sort of the positions;
  \<^verbatim>\<open>scatter\<close> writes the shifted mask back to the original positions.
\<close>

definition sorted_indices_desc :: "real list \<Rightarrow> nat list" where
  "sorted_indices_desc row = sort_key (\<lambda>i. - (row ! i)) [0..<length row]"

definition scatter :: "bool list \<Rightarrow> nat list \<Rightarrow> bool list \<Rightarrow> bool list" where
  "scatter base index src = fold (\<lambda>(i, b) acc. acc[i := b]) (zip index src) base"

definition top_p_probs :: "real list \<Rightarrow> real \<Rightarrow> real list" where
  "top_p_probs row top_p_arg =
     (let sorted_indices = sorted_indices_desc row;
          sorted_logits = map ((!) row) sorted_indices;
          cumulative_probs = cumsum 0 (softmax sorted_logits);
          over = map (\<lambda>c. c > top_p_arg) cumulative_probs;
          sorted_indices_to_remove = False # butlast over;
          indices_to_remove = scatter sorted_indices_to_remove sorted_indices
                                sorted_indices_to_remove
      in softmax_masked (map (\<lambda>(x, rm). if rm then None else Some x)
                           (zip row indices_to_remove)))"

definition top_p_row :: "(real list \<Rightarrow> nat) \<Rightarrow> real \<Rightarrow> real list \<Rightarrow> error + nat \<times> real" where
  "top_p_row pick top_p_arg row =
     (if row = [] then Inl IndexError
      else (let raw_probs = softmax row;
                probs = top_p_probs row top_p_arg;
                next_token = pick probs
            in Inr (next_token, ln (raw_probs ! next_token))))"

definition top_p_sampling_batch ::
  "(real list \<Rightarrow> nat) \<Rightarrow> scores \<Rightarrow> real \<Rightarrow> error + nat list \<times> real list" where
  "top_p_sampling_batch pick lg top_p_arg =
     (let rows = (case lg of Vec v \<Rightarrow> [v] | Mat m \<Rightarrow> m)
      in unzip_result (map_result (top_p_row pick top_p_arg) rows))"

text \<open>
  The greedy policy has no promotion step: on a rank 1 input the arg-max is a rank 0
  tensor, and \<^verbatim>\<open>next_tokens.unsqueeze(1)\<close> has no axis 1 to insert at (neither has
  \<^verbatim>\<open>torch.gather(raw_probs, dim=1, ...)\<close> on the rank 1 probabilities).
\<close>

definition greedy_row :: "real list \<Rightarrow> error + nat \<times> real" where
  "greedy_row row =
     (if row = [] then Inl IndexError
      else (let raw_probs = softmax row; next_token = argmax row
            in Inr (next_token, ln (raw_probs ! next_token))))"

definition greedy_search_sampling_batch :: "scores \<Rightarrow> error + nat list \<times> real list" where
  "greedy_search_sampling_batch lg =
     (case lg of
        Vec v \<Rightarrow> Inl IndexError
      | Mat m \<Rightarrow> unzip_result (map_result greedy_row m))"

definition decode_single_request ::
  "(real list \<Rightarrow> nat) \<Rightarrow> LlmRequest \<Rightarrow> scores \<Rightarrow> error + nat list \<times> real list" where
  "decode_single_request pick request lg =
     (case lg of
        Mat [row] \<Rightarrow>
          (case top_p request of
             Some (p # ps) \<Rightarrow> top_p_sampling_batch pick lg p
           | _ \<Rightarrow>
              (case top_k request of
                 Some (k # ks) \<Rightarrow> top_k_sampling_batch pick lg k
               | _ \<Rightarrow> greedy_search_sampling_batch lg))
      | _ \<Rightarrow> Inl AssertionError)"

section \<open>Simple batched decoder: committing a step\<close>

text \<open>
  \<^verbatim>\<open>update_requests\<close> walks the batch with two counters, \<open>request_idx\<close> and
  \<open>token_idx\<close>, which the closure \<^verbatim>\<open>advance_idx\<close> moves. Requests are mutated in
  place by the source; here every loop returns the requests as they are afterwards.
\<close>

record indices =
  request_idx :: nat
  token_idx :: nat

definition advance_idx :: "indices \<Rightarrow> nat \<Rightarrow> indices" where
  "advance_idx i num_tokens =
     i\<lparr>request_idx := request_idx i + 1, token_idx := token_idx i + num_tokens\<rparr>"

definition read_token :: "int list \<Rightarrow> nat \<Rightarrow> error + int" where
  "read_token new_tokens_list k =
     (if k < length new_tokens_list then Inr (new_tokens_list ! k) else Inl IndexError)"

text \<open>
  \<^verbatim>\<open>handle_logits(request, count)\<close>: the slice \<^verbatim>\<open>logits[token_idx : token_idx + count]\<close>
  is appended to the generation logits. An entry of \<open>log_probs\<close> is a Python list or
  \<^verbatim>\<open>None\<close>, neither of which has the method \<^verbatim>\<open>tolist\<close> that is called on it.
\<close>

definition handle_logits ::
  "DecoderState \<Rightarrow> indices \<Rightarrow> LlmRequest \<Rightarrow> nat \<Rightarrow> error + LlmRequest" where
  "handle_logits decoder_state i request count =
     (case logits decoder_state of
        None \<Rightarrow> Inr request
      | Some lg \<Rightarrow>
          if \<not> py_return_generation_logits request \<and> \<not> py_return_log_probs request
          then Inr request
          else
            (let current_logits = take count (drop (token_idx i) lg);
                 request1 = request\<lparr>generation_logits :=
                                       generation_logits request @ [current_logits]\<rparr>
             in if \<not> py_return_log_probs request then Inr request1
                else
                  (case log_probs decoder_state of
                     Some (entry # entries) \<Rightarrow>
                       (if request_idx i < length (entry # entries)
                        then Inl AttributeError else Inl IndexError)
                   | _ \<Rightarrow>
                       (case greedy_search_sampling_batch (Mat current_logits) of
                          Inl e \<Rightarrow> Inl e
                        | Inr (next_tokens, lps) \<Rightarrow>
                            Inr (request1\<lparr>log_probs_result :=
                                            log_probs_result request1 @ [[lps]]\<rparr>)))))"

text \<open>The body guarded by \<^verbatim>\<open>request.state != GENERATION_COMPLETE\<close> for one-row requests.\<close>

definition commit_one ::
  "int \<Rightarrow> DecoderState \<Rightarrow> indices \<Rightarrow> LlmRequest \<Rightarrow> error + LlmRequest" where
  "commit_one max_seq_len decoder_state i request =
     (case read_token (new_tokens_host decoder_state) (token_idx i) of
        Inl e \<Rightarrow> Inl e
      | Inr new_token \<Rightarrow>
          (let (request1, num_tokens) = add_new_token request new_token 0;
               (request2, stop) = handle_stop_criteria max_seq_len request1 new_token num_tokens 0
           in case handle_logits decoder_state i request2 1 of
                Inl e \<Rightarrow> Inl e
              | Inr request3 \<Rightarrow>
                  Inr (request3\<lparr>py_decoding_iter := py_decoding_iter request3 + 1\<rparr>)))"

definition update_context_request ::
  "int \<Rightarrow> DecoderState \<Rightarrow> indices \<Rightarrow> LlmRequest \<Rightarrow> error + LlmRequest \<times> indices" where
  "update_context_request max_seq_len decoder_state i request =
     (if get_context_remaining_length request \<noteq> 0 then Inr (request, advance_idx i 1)
      else if state request \<noteq> GENERATION_COMPLETE
      then (case commit_one max_seq_len decoder_state i request of
              Inl e \<Rightarrow> Inl e
            | Inr request1 \<Rightarrow> Inr (request1, advance_idx i 1))
      else Inr (request, advance_idx i 1))"

definition update_generation_request ::
  "int \<Rightarrow> DecoderState \<Rightarrow> indices \<Rightarrow> LlmRequest \<Rightarrow> error + LlmRequest \<times> indices" where
  "update_generation_request max_seq_len decoder_state i request =
     (if state request \<noteq> GENERATION_COMPLETE
      then (case commit_one max_seq_len decoder_state i request of
              Inl e \<Rightarrow> Inl e
            | Inr request1 \<Rightarrow> Inr (request1, advance_idx i 1))
      else Inr (request, advance_idx i 1))"

text \<open>
  The loop over the draft tokens. \<open>new_token\<close> is the token committed last and
  \<open>num_accepted\<close> the count so far; the loop ends at the first draft token that differs
  from \<open>new_token\<close>, or after a commit on which a stop criterion fires.
\<close>

fun accept_drafts ::
  "int \<Rightarrow> int list \<Rightarrow> nat \<Rightarrow> LlmRequest \<Rightarrow> int \<Rightarrow> nat \<Rightarrow> int list \<Rightarrow> error + LlmRequest \<times> nat"
  where
  "accept_drafts max_seq_len new_tokens_list tix request new_token num_accepted [] =
     Inr (request, num_accepted)"
| "accept_drafts max_seq_len new_tokens_list tix request new_token num_accepted
       (draft_token # rest) =
     (if draft_token \<noteq> new_token then Inr (request, num_accepted)
      else
        (case read_token new_tokens_list (tix + (num_accepted + 1)) of
           Inl e \<Rightarrow> Inl e
         | Inr new_token1 \<Rightarrow>
             (let (request1, num_tokens) = add_new_token request new_token1 0;
                  (request2, stop) =
                     handle_stop_criteria max_seq_len request1 new_token1 num_tokens 0
              in if stop then Inr (request2, num_accepted + 1)
                 else accept_drafts max_seq_len new_tokens_list tix request2 new_token1
                        (num_accepted + 1) rest)))"

definition update_extend_request ::
  "int \<Rightarrow> DecoderState \<Rightarrow> indices \<Rightarrow> LlmRequest \<Rightarrow> error + LlmRequest \<times> indices" where
  "update_extend_request max_seq_len decoder_state i request =
     (case py_draft_tokens request of
        None \<Rightarrow> Inl TypeError
      | Some draft_tokens \<Rightarrow>
          if state request \<noteq> GENERATION_COMPLETE
          then
            (case read_token (new_tokens_host decoder_state) (token_idx i) of
               Inl e \<Rightarrow> Inl e
             | Inr new_token \<Rightarrow>
                 (let (request1, num_tokens) = add_new_token request new_token 0;
                      (request2, stop) =
                         handle_stop_criteria max_seq_len request1 new_token num_tokens 0
                  in case accept_drafts max_seq_len (new_tokens_host decoder_state)
                            (token_idx i) request2 new_token 0 draft_tokens of
                       Inl e \<Rightarrow> Inl e
                     | Inr (request3, num_accepted) \<Rightarrow>
                         (case handle_logits decoder_state i request3 num_accepted of
                            Inl e \<Rightarrow> Inl e
                          | Inr request4 \<Rightarrow>
                              Inr (request4\<lparr>py_decoding_iter := py_decoding_iter request4 + 1,
                                     py_num_accepted_draft_tokens := int num_accepted,
                                     py_rewind_len :=
                                       py_draft_pages_allocated request4 - int num_accepted\<rparr>,
                                   advance_idx i (length draft_tokens + 1)))))
          else Inr (request, advance_idx i (length draft_tokens + 1)))"

text \<open>A \<^verbatim>\<open>for request in ...\<close> loop threading the counters; an exception ends it.\<close>

fun for_requests ::
  "(indices \<Rightarrow> LlmRequest \<Rightarrow> error + LlmRequest \<times> indices) \<Rightarrow> indices \<Rightarrow> LlmRequest list
     \<Rightarrow> error + LlmRequest list \<times> indices" where
  "for_requests body i [] = Inr ([], i)"
| "for_requests body i (request # rest) =
     (case body i request of
        Inl e \<Rightarrow> Inl e
      | Inr (request1, i1) \<Rightarrow>
          (case for_requests body i1 rest of
             Inl e \<Rightarrow> Inl e
           | Inr (done, i2) \<Rightarrow> Inr (request1 # done, i2)))"

record update_result =
  context_after :: "LlmRequest list"
  extend_after :: "LlmRequest list"
  generation_after :: "LlmRequest list"
  indices_after :: indices

definition extend_requests_of :: "ScheduledRequests \<Rightarrow> LlmRequest list" where
  "extend_requests_of sched =
     filter (\<lambda>request. py_draft_tokens request \<noteq> None) (generation_requests sched)"

definition plain_requests_of :: "ScheduledRequests \<Rightarrow> LlmRequest list" where
  "plain_requests_of sched =
     filter (\<lambda>request. py_draft_tokens request = None) (generation_requests sched)"

definition update_requests :: "int \<Rightarrow> DecoderState \<Rightarrow> error + update_result" where
  "update_requests max_seq_len decoder_state =
     (let sched = scheduled_requests decoder_state
      in case for_requests (update_context_request max_seq_len decoder_state)
                \<lparr>request_idx = 0, token_idx = 0\<rparr> (context_requests sched) of
           Inl e \<Rightarrow> Inl e
         | Inr (ctx, i1) \<Rightarrow>
             (let i2 = (case chunked_requests sched of
                          None \<Rightarrow> i1
                        | Some chunked \<Rightarrow> i1\<lparr>request_idx := request_idx i1 + length chunked\<rparr>)
              in case for_requests (update_extend_request max_seq_len decoder_state) i2
                        (extend_requests_of sched) of
                   Inl e \<Rightarrow> Inl e
                 | Inr (ext, i3) \<Rightarrow>
                     (case for_requests (update_generation_request max_seq_len decoder_state) i3
                             (plain_requests_of sched) of
                        Inl e \<Rightarrow> Inl e
                      | Inr (gen, i4) \<Rightarrow>
                          Inr \<lparr>context_after = ctx, extend_after = ext,
                               generation_after = gen, indices_after = i4\<rparr>)))"

section \<open>Simple batched decoder: producing a step\<close>

text \<open>
  The mixed mode samples row by row. \<open>idx\<close> counts the rows of the score matrix read,
  \<open>new_tokens\<close> and \<open>lps\<close> collect one entry per request decoded.
\<close>

record mixed_acc =
  idx :: nat
  new_tokens :: "int list"
  lps :: "real list list option list"

definition mixed_step ::
  "(real list \<Rightarrow> nat) \<Rightarrow> real list list \<Rightarrow> mixed_acc \<Rightarrow> LlmRequest \<Rightarrow> error + mixed_acc" where
  "mixed_step pick lg acc request =
     (case decode_single_request pick request (Mat (take 1 (drop (idx acc) lg))) of
        Inl e \<Rightarrow> Inl e
      | Inr (toks, lp) \<Rightarrow>
          Inr \<lparr>idx = idx acc + 1,
               new_tokens = new_tokens acc @ map int toks,
               lps = lps acc @ [if py_return_log_probs request then Some [lp] else None]\<rparr>)"

fun mixed_context_loop ::
  "(real list \<Rightarrow> nat) \<Rightarrow> real list list \<Rightarrow> mixed_acc \<Rightarrow> LlmRequest list \<Rightarrow> error + mixed_acc"
  where
  "mixed_context_loop pick lg acc [] = Inr acc"
| "mixed_context_loop pick lg acc (request # rest) =
     (if py_return_context_logits request then Inl AssertionError
      else (case mixed_step pick lg acc request of
              Inl e \<Rightarrow> Inl e
            | Inr acc1 \<Rightarrow> mixed_context_loop pick lg acc1 rest))"

fun mixed_generation_loop ::
  "(real list \<Rightarrow> nat) \<Rightarrow> real list list \<Rightarrow> mixed_acc \<Rightarrow> LlmRequest list \<Rightarrow> error + mixed_acc"
  where
  "mixed_generation_loop pick lg acc [] = Inr acc"
| "mixed_generation_loop pick lg acc (request # rest) =
     (if state request = GENERATION_COMPLETE then mixed_generation_loop pick lg acc rest
      else if py_draft_tokens request \<noteq> None then Inl AssertionError
      else (case mixed_step pick lg acc request of
              Inl e \<Rightarrow> Inl e
            | Inr acc1 \<Rightarrow> mixed_generation_loop pick lg acc1 rest))"

definition mixed_decode ::
  "(real list \<Rightarrow> nat) \<Rightarrow> ScheduledRequests \<Rightarrow> real list list \<Rightarrow> error + DecoderState" where
  "mixed_decode pick sched lg =
     (case mixed_context_loop pick lg \<lparr>idx = 0, new_tokens = [], lps = []\<rparr>
             (context_requests sched) of
        Inl e \<Rightarrow> Inl e
      | Inr acc1 \<Rightarrow>
          (case mixed_generation_loop pick lg acc1 (generation_requests sched) of
             Inl e \<Rightarrow> Inl e
           | Inr acc2 \<Rightarrow>
               if new_tokens acc2 = [] then Inl RuntimeError
               else Inr \<lparr>scheduled_requests = sched, logits = Some lg,
                         log_probs = Some (lps acc2), new_tokens_host = new_tokens acc2\<rparr>))"

definition batch_decode :: "ScheduledRequests \<Rightarrow> real list list \<Rightarrow> error + DecoderState" where
  "batch_decode sched lg =
     (if \<exists>row \<in> set lg. row = [] then Inl IndexError
      else Inr \<lparr>scheduled_requests = sched, logits = Some lg, log_probs = None,
                new_tokens_host = map (\<lambda>row. int (argmax row)) lg\<rparr>)"

definition decode_async ::
  "bool \<Rightarrow> (real list \<Rightarrow> nat) \<Rightarrow> ScheduledRequests \<Rightarrow> real list list \<Rightarrow> error + DecoderState"
  where
  "decode_async mixed_decoder pick sched lg =
     (if mixed_decoder then mixed_decode pick sched lg else batch_decode sched lg)"

text \<open>
  The number of token rows the consumer walks over: one per context request,
  \<open>1 + len(draft_tokens)\<close> per extend request and one per plain generation request.
\<close>

definition rows_walked :: "ScheduledRequests \<Rightarrow> nat" where
  "rows_walked sched =
     length (context_requests sched)
     + (\<Sum>request\<leftarrow>extend_requests_of sched. 1 + length (the (py_draft_tokens request)))
     + length (plain_requests_of sched)"

section \<open>Auxiliary predicates for the commit loops\<close>

text \<open>
  Whether the stop criteria fire on the commit that makes \<open>seq\<close> the beam 0 sequence of
  the request, and the attributes a commit leaves as they are.
\<close>

definition stops_at :: "int \<Rightarrow> LlmRequest \<Rightarrow> int list \<Rightarrow> bool" where
  "stops_at max_seq_len request seq =
     snd (handle_stop_criteria max_seq_len (request\<lparr>tokens := (tokens request)(0 := seq)\<rparr>)
            (last seq) (int (length seq)) 0)"

definition same_view :: "LlmRequest \<Rightarrow> LlmRequest \<Rightarrow> bool" where
  "same_view r r' \<longleftrightarrow>
     py_end_id r' = py_end_id r \<and> py_orig_prompt_len r' = py_orig_prompt_len r
     \<and> py_max_new_tokens r' = py_max_new_tokens r
     \<and> py_stop_words_list r' = py_stop_words_list r
     \<and> py_draft_tokens r' = py_draft_tokens r
     \<and> py_draft_pages_allocated r' = py_draft_pages_allocated r
     \<and> py_return_generation_logits r' = py_return_generation_logits r
     \<and> py_return_log_probs r' = py_return_log_probs r
     \<and> generation_logits r' = generation_logits r
     \<and> log_probs_result r' = log_probs_result r
     \<and> py_decoding_iter r' = py_decoding_iter r
     \<and> (\<forall>b. b \<noteq> 0 \<longrightarrow> tokens r' b = tokens r b)"

section \<open>Example inputs\<close>

definition base_request :: LlmRequest where
  "base_request =
     \<lparr>state = GENERATION_IN_PROGRESS, tokens = (\<lambda>beam. []),
      finished_reason = (\<lambda>beam. NOT_FINISHED),
      context_remaining_length = 0, py_end_id = 2, py_orig_prompt_len = 0,
      py_max_new_tokens = 16, py_stop_words_list = None, py_draft_tokens = None,
      py_draft_pages_allocated = 0, py_decoding_iter = 0, py_num_accepted_draft_tokens = 0,
      py_rewind_len = 0, py_return_context_logits = False, py_return_generation_logits = False,
      py_return_log_probs = False, top_k = None, top_p = None, context_logits = [],
      generation_logits = [], log_probs_result = []\<rparr>"

definition all_rules_request :: LlmRequest where
  "all_rules_request =
     base_request\<lparr>tokens := (\<lambda>beam. [])(0 := [5, 6, 7, 2]), py_orig_prompt_len := 3,
       py_max_new_tokens := 1, py_stop_words_list := Some ([7, 2], [2])\<rparr>"

definition length_request :: LlmRequest where
  "length_request =
     base_request\<lparr>tokens := (\<lambda>beam. [])(0 := [5, 6, 7, 8, 9]), py_orig_prompt_len := 3,
       py_max_new_tokens := 2\<rparr>"

definition bert_batch :: ScheduledRequests where
  "bert_batch = \<lparr>context_requests = [base_request, base_request\<lparr>py_end_id := 7\<rparr>],
                  generation_requests = [], chunked_requests = None\<rparr>"

definition bert_logits :: "tensor list" where
  "bert_logits = [Tensor [Scalar 1, Scalar 2], Tensor [Tensor [Scalar 3, Scalar 4]]]"

definition spec_request :: LlmRequest where
  "spec_request = base_request\<lparr>py_draft_tokens := Some [11, 12, 13], py_end_id := 2,
       py_draft_pages_allocated := 3, tokens := (\<lambda>beam. [])(0 := [1])\<rparr>"




definition chunk_state :: DecoderState where
  "chunk_state = \<lparr>scheduled_requests = \<lparr>context_requests = [base_request],
        generation_requests = [base_request],
        chunked_requests = Some [base_request\<lparr>state := CONTEXT_INIT,
                                                context_remaining_length := 4\<rparr>]\<rparr>,
      logits = None, log_probs = None, new_tokens_host = [5, 6, 7]\<rparr>"

definition eos_first_request :: LlmRequest where
  "eos_first_request = base_request\<lparr>py_draft_tokens := Some [2, 7], py_end_id := 2,
       py_draft_pages_allocated := 2, tokens := (\<lambda>beam. [])(0 := [1])\<rparr>"

definition eos_first_state :: DecoderState where
  "eos_first_state = \<lparr>scheduled_requests = \<lparr>context_requests = [],
        generation_requests = [eos_first_request], chunked_requests = None\<rparr>,
      logits = None, log_probs = None, new_tokens_host = [2, 7, 9]\<rparr>"

definition done_request :: LlmRequest where
  "done_request = base_request\<lparr>state := GENERATION_COMPLETE,
       tokens := (\<lambda>beam. [])(0 := [1, 2]),
       finished_reason := (\<lambda>beam. NOT_FINISHED)(0 := END_ID)\<rparr>"

definition prefill_request :: LlmRequest where
  "prefill_request = base_request\<lparr>state := CONTEXT_INIT, context_remaining_length := 4\<rparr>"

definition mixed_state :: DecoderState where
  "mixed_state = \<lparr>scheduled_requests = \<lparr>context_requests = [done_request, prefill_request],
        generation_requests = [done_request, spec_request, base_request],
        chunked_requests = None\<rparr>,
      logits = None, log_probs = None, new_tokens_host = [7, 8, 11, 12, 30, 40, 9, 3]\<rparr>"

definition mixed_result :: update_result where
  "mixed_result =
     \<lparr>context_after = [done_request, prefill_request],
      extend_after = [spec_request\<lparr>tokens := (\<lambda>beam. [])(0 := [1, 11, 12, 30]),
           py_decoding_iter := 1, py_num_accepted_draft_tokens := 2, py_rewind_len := 1\<rparr>],
      generation_after = [done_request,
         base_request\<lparr>tokens := (\<lambda>beam. [])(0 := [3]), py_decoding_iter := 1\<rparr>],
      indices_after = \<lparr>request_idx = 5, token_idx = 8\<rparr>\<rparr>"

definition logits_request :: LlmRequest where
  "logits_request = base_request\<lparr>py_draft_tokens := Some [7], py_draft_pages_allocated := 1,
       py_return_generation_logits := True, tokens := (\<lambda>beam. [])(0 := [1])\<rparr>"

definition logits_state :: DecoderState where
  "logits_state = \<lparr>scheduled_requests = \<lparr>context_requests = [],
        generation_requests = [logits_request], chunked_requests = None\<rparr>,
      logits = Some [[0, 1], [1, 0]], log_probs = None, new_tokens_host = [5, 9]\<rparr>"

definition logits_state2 :: DecoderState where
  "logits_state2 = \<lparr>scheduled_requests = \<lparr>context_requests = [],
        generation_requests = [logits_request\<lparr>py_draft_tokens := Some [5, 9, 4]\<rparr>],
        chunked_requests = None\<rparr>,
      logits = Some [[0, 1], [1, 0], [2, 0], [3, 0]], log_probs = None,
      new_tokens_host = [5, 9, 6, 8]\<rparr>"

definition stale_batch :: ScheduledRequests where
  "stale_batch = \<lparr>context_requests = [], generation_requests = [done_request, base_request],
                   chunked_requests = None\<rparr>"

definition stale_logits :: "real list list" where
  "stale_logits = [[1, 3, 2], [2, 1, 0]]"

section \<open>Stop criteria\<close>

text \<open>
  C2. The stop criteria are checked in a fixed order: the end-of-sequence id, then the
  length limit, then the stop words. The first rule that matches completes the request
  with its own finish reason and the evaluation returns; a token equal to the
  end-of-sequence id gives \<open>END_ID\<close> whatever the other two rules say, and when no
  rule matches the request is returned as it was.
\<close>

theorem stop_criteria_precedence:
  "(new_token = py_end_id request \<longrightarrow>
      handle_stop_criteria max_seq_len request new_token num_tokens beam_idx =
        (request\<lparr>state := GENERATION_COMPLETE,
                 finished_reason := (finished_reason request)(beam_idx := END_ID)\<rparr>, True))
   \<and> (new_token \<noteq> py_end_id request \<and>
        (num_tokens - py_orig_prompt_len request \<ge> py_max_new_tokens request
         \<or> num_tokens \<ge> max_seq_len) \<longrightarrow>
      handle_stop_criteria max_seq_len request new_token num_tokens beam_idx =
        (request\<lparr>state := GENERATION_COMPLETE,
                 finished_reason := (finished_reason request)(beam_idx := LENGTH)\<rparr>, True))
   \<and> (new_token \<noteq> py_end_id request \<and>
        \<not> (num_tokens - py_orig_prompt_len request \<ge> py_max_new_tokens request
           \<or> num_tokens \<ge> max_seq_len) \<and>
        meet_stop_token_criteria request \<longrightarrow>
      handle_stop_criteria max_seq_len request new_token num_tokens beam_idx =
        (request\<lparr>state := GENERATION_COMPLETE,
                 finished_reason := (finished_reason request)(beam_idx := STOP_WORDS)\<rparr>, True))
   \<and> (new_token \<noteq> py_end_id request \<and>
        \<not> (num_tokens - py_orig_prompt_len request \<ge> py_max_new_tokens request
           \<or> num_tokens \<ge> max_seq_len) \<and>
        \<not> meet_stop_token_criteria request \<longrightarrow>
      handle_stop_criteria max_seq_len request new_token num_tokens beam_idx = (request, False))"
  by (simp add: handle_stop_criteria_def meet_max_token_stop_criteria_def
      set_finished_reason_def)

text \<open>
  At \<open>all_rules_request\<close> the new token is the end-of-sequence id, the length limit is
  reached and the sequence ends with a stop word: the reason is \<open>END_ID\<close>.
\<close>

theorem stop_criteria_precedence_witness:
  "(2::int) = py_end_id all_rules_request
   \<and> meet_max_token_stop_criteria 4 all_rules_request 4
   \<and> meet_stop_token_criteria all_rules_request
   \<and> state (fst (handle_stop_criteria 4 all_rules_request 2 4 0)) = GENERATION_COMPLETE
   \<and> finished_reason (fst (handle_stop_criteria 4 all_rules_request 2 4 0)) 0 = END_ID
   \<and> snd (handle_stop_criteria 4 all_rules_request 2 4 0)"
  using stop_criteria_precedence [of 2 all_rules_request 4 4 0]
  by (simp add: all_rules_request_def base_request_def meet_max_token_stop_criteria_def
      meet_stop_token_criteria_def get_tokens_def py_slice_def py_bound_def py_last_n_def)

text \<open>
  C4. For a request with \<open>max_new_tokens = N\<close> that is in progress, and a new token
  other than the end-of-sequence id, the evaluation completes the request with reason
  \<open>LENGTH\<close> exactly when the new total minus the prompt length has reached \<open>N\<close> or
  the new total has reached the maximum sequence length. A commit that satisfies
  neither, and matches no stop word, leaves the request as it was.
\<close>

theorem length_boundary:
  assumes "py_max_new_tokens request = N"
    and "new_token \<noteq> py_end_id request"
    and "state request = GENERATION_IN_PROGRESS"
  shows "((state (fst (handle_stop_criteria max_seq_len request new_token num_tokens beam_idx))
             = GENERATION_COMPLETE
           \<and> finished_reason
               (fst (handle_stop_criteria max_seq_len request new_token num_tokens beam_idx))
               beam_idx = LENGTH
           \<and> snd (handle_stop_criteria max_seq_len request new_token num_tokens beam_idx))
          \<longleftrightarrow> (num_tokens - py_orig_prompt_len request \<ge> N \<or> num_tokens \<ge> max_seq_len))
       \<and> (\<not> (num_tokens - py_orig_prompt_len request \<ge> N \<or> num_tokens \<ge> max_seq_len)
            \<and> \<not> meet_stop_token_criteria request \<longrightarrow>
          handle_stop_criteria max_seq_len request new_token num_tokens beam_idx
            = (request, False))"
  using assms
  by (simp add: handle_stop_criteria_def meet_max_token_stop_criteria_def
      set_finished_reason_def)

text \<open>
  With a prompt of three tokens and \<open>max_new_tokens = 2\<close>, the fifth token ends the
  request with \<open>LENGTH\<close> and the fourth does not.
\<close>

theorem length_boundary_witness:
  "py_max_new_tokens length_request = 2
   \<and> 9 \<noteq> py_end_id length_request
   \<and> state length_request = GENERATION_IN_PROGRESS
   \<and> finished_reason (fst (handle_stop_criteria 100 length_request 9 5 0)) 0 = LENGTH
   \<and> state (fst (handle_stop_criteria 100 length_request 9 5 0)) = GENERATION_COMPLETE
   \<and> handle_stop_criteria 100 length_request 9 4 0 = (length_request, False)"
  using length_boundary [of length_request 2 9 100 5 0]
    length_boundary [of length_request 2 9 100 4 0]
  by (simp add: length_request_def base_request_def meet_stop_token_criteria_def)

section \<open>Early-stop decoder: commit\<close>

lemma early_stop_loop_Inr:
  "k + length rs \<le> length ts \<Longrightarrow>
     \<exists>out. early_stop_loop (Tensor ts) k rs = Inr out \<and> length out = length rs
       \<and> (\<forall>i < length rs.
            out ! i =
              (rs ! i)\<lparr>state := GENERATION_COMPLETE,
                       finished_reason := (finished_reason (rs ! i))(0 := LENGTH),
                       context_logits := context_logits (rs ! i) @
                         [if ndim (ts ! (k + i)) = 1 then unsqueeze_last (ts ! (k + i))
                          else ts ! (k + i)]\<rparr>)"
proof (induction rs arbitrary: k)
  case Nil
  then show ?case by simp
next
  case (Cons r rs)
  from Cons.prems have "Suc k + length rs \<le> length ts" by simp
  from Cons.IH [OF this] obtain out where
    d: "early_stop_loop (Tensor ts) (Suc k) rs = Inr out" "length out = length rs"
    "\<forall>i < length rs.
        out ! i =
          (rs ! i)\<lparr>state := GENERATION_COMPLETE,
                   finished_reason := (finished_reason (rs ! i))(0 := LENGTH),
                   context_logits := context_logits (rs ! i) @
                     [if ndim (ts ! (Suc k + i)) = 1 then unsqueeze_last (ts ! (Suc k + i))
                      else ts ! (Suc k + i)]\<rparr>"
    by blast
  from Cons.prems have k: "k < length ts" by simp
  show ?case
    using d k by (auto simp: set_finished_reason_def Let_def nth_Cons fun_upd_def split: nat.splits)
qed

text \<open>
  C5. The commit step of the early-stop decoder fails at once when the batch has a
  generation request. With none, and a score tensor that has a row for every context
  request, every context request is completed with reason \<open>LENGTH\<close> on beam 0 and its
  scores are appended to its context logits, after \<^verbatim>\<open>unsqueeze(-1)\<close> when they are of
  rank 1.
\<close>

theorem early_stop_commit:
  "(generation_requests sched \<noteq> [] \<longrightarrow>
      early_stop_update_requests sched all_logits = Inl AssertionError)
   \<and> (generation_requests sched = [] \<and> all_logits = Tensor ts
        \<and> length (context_requests sched) \<le> length ts \<longrightarrow>
      (\<exists>out. early_stop_update_requests sched all_logits = Inr out
         \<and> length out = length (context_requests sched)
         \<and> (\<forall>i < length (context_requests sched).
              state (out ! i) = GENERATION_COMPLETE
              \<and> finished_reason (out ! i) 0 = LENGTH
              \<and> context_logits (out ! i) =
                  context_logits (context_requests sched ! i) @
                    [if ndim (ts ! i) = 1 then unsqueeze_last (ts ! i) else ts ! i])))"
proof (intro conjI impI)
  assume "generation_requests sched \<noteq> []"
  then show "early_stop_update_requests sched all_logits = Inl AssertionError"
    by (simp add: early_stop_update_requests_def)
next
  assume a: "generation_requests sched = [] \<and> all_logits = Tensor ts
        \<and> length (context_requests sched) \<le> length ts"
  then have "0 + length (context_requests sched) \<le> length ts" by simp
  from early_stop_loop_Inr [OF this] obtain out where
    d: "early_stop_loop (Tensor ts) 0 (context_requests sched) = Inr out"
      "length out = length (context_requests sched)"
      "\<forall>i < length (context_requests sched).
        out ! i =
          (context_requests sched ! i)\<lparr>state := GENERATION_COMPLETE,
             finished_reason := (finished_reason (context_requests sched ! i))(0 := LENGTH),
             context_logits := context_logits (context_requests sched ! i) @
               [if ndim (ts ! (0 + i)) = 1 then unsqueeze_last (ts ! (0 + i))
                else ts ! (0 + i)]\<rparr>"
    by blast
  show "\<exists>out. early_stop_update_requests sched all_logits = Inr out
         \<and> length out = length (context_requests sched)
         \<and> (\<forall>i < length (context_requests sched).
              state (out ! i) = GENERATION_COMPLETE
              \<and> finished_reason (out ! i) 0 = LENGTH
              \<and> context_logits (out ! i) =
                  context_logits (context_requests sched ! i) @
                    [if ndim (ts ! i) = 1 then unsqueeze_last (ts ! i) else ts ! i])"
    using a d by (intro exI [of _ out]) (simp add: early_stop_update_requests_def)
qed

text \<open>
  Two context requests: the scores of the first are of rank 1 and get a new last axis,
  those of the second are of rank 2 and are stored as they are. With a generation request
  in the batch the step raises.
\<close>

theorem early_stop_commit_witness:
  "generation_requests bert_batch = []
   \<and> length (context_requests bert_batch) \<le> length bert_logits
   \<and> map state (projr (early_stop_update_requests bert_batch (Tensor bert_logits)))
       = [GENERATION_COMPLETE, GENERATION_COMPLETE]
   \<and> map (\<lambda>r. finished_reason r 0)
         (projr (early_stop_update_requests bert_batch (Tensor bert_logits)))
       = [LENGTH, LENGTH]
   \<and> map context_logits (projr (early_stop_update_requests bert_batch (Tensor bert_logits)))
       = [[Tensor [Tensor [Scalar 1], Tensor [Scalar 2]]], [Tensor [Tensor [Scalar 3, Scalar 4]]]]
   \<and> early_stop_update_requests (bert_batch\<lparr>generation_requests := [base_request]\<rparr>)
         (Tensor bert_logits) = Inl AssertionError"
  using early_stop_commit [of bert_batch "Tensor bert_logits" bert_logits]
    early_stop_commit [of "bert_batch\<lparr>generation_requests := [base_request]\<rparr>"
      "Tensor bert_logits" bert_logits]
  by (simp add: bert_batch_def bert_logits_def early_stop_update_requests_def
      set_finished_reason_def base_request_def)

section \<open>Simple batched decoder: facts about the commit loops\<close>

lemmas commit_defs =
  update_requests_def update_context_request_def update_generation_request_def
  update_extend_request_def commit_one_def read_token_def add_new_token_def
  handle_stop_criteria_def set_finished_reason_def meet_max_token_stop_criteria_def
  meet_stop_token_criteria_def handle_logits_def advance_idx_def
  get_context_remaining_length_def extend_requests_of_def plain_requests_of_def Let_def

lemma handle_stop_criteria_fields:
  assumes "handle_stop_criteria m r t n b = (r', s)"
  shows "tokens r' = tokens r"
    "py_draft_tokens r' = py_draft_tokens r"
    "py_draft_pages_allocated r' = py_draft_pages_allocated r"
    "py_return_generation_logits r' = py_return_generation_logits r"
    "py_return_log_probs r' = py_return_log_probs r"
    "generation_logits r' = generation_logits r"
    "py_end_id r' = py_end_id r"
  using assms
  by (auto simp: handle_stop_criteria_def set_finished_reason_def split: if_splits)

lemma handle_logits_fields:
  assumes "handle_logits ds i r c = Inr r'"
  shows "tokens r' = tokens r" "state r' = state r"
    "py_draft_pages_allocated r' = py_draft_pages_allocated r"
  using assms
  by (auto simp: handle_logits_def Let_def
      split: option.splits if_splits list.splits sum.splits prod.splits)

lemma commit_one_tokens:
  assumes "commit_one m ds i r = Inr r'"
  shows "tokens r' = (tokens r)(0 := tokens r 0 @ [new_tokens_host ds ! token_idx i])"
    and "token_idx i < length (new_tokens_host ds)"
  using assms
  by (auto simp: commit_one_def read_token_def add_new_token_def Let_def
      split: if_splits sum.splits prod.splits
      dest!: handle_logits_fields(1) handle_stop_criteria_fields(1))

lemma for_requests_length:
  "for_requests body i rs = Inr (out, j) \<Longrightarrow> length out = length rs"
  by (induction rs arbitrary: i out j) (auto split: sum.splits prod.splits)

lemma for_requests_pointwise:
  assumes "\<And>i r r' j. body i r = Inr (r', j) \<Longrightarrow> P r r'"
    and "for_requests body i rs = Inr (out, j)"
  shows "list_all2 P rs out"
  using assms(2)
  by (induction rs arbitrary: i out j) (auto split: sum.splits prod.splits dest: assms(1))

lemma for_requests_indices:
  assumes "\<And>i r r' j. body i r = Inr (r', j) \<Longrightarrow>
             request_idx j = request_idx i + 1 \<and> token_idx j = token_idx i + w r"
    and "for_requests body i rs = Inr (out, j)"
  shows "request_idx j = request_idx i + length rs
         \<and> token_idx j = token_idx i + sum_list (map w rs)"
  using assms(2)
proof (induction rs arbitrary: i out j)
  case Nil
  then show ?case by simp
next
  case (Cons r rs)
  from Cons.prems obtain r1 i1 out1 where
    a: "body i r = Inr (r1, i1)" and b: "for_requests body i1 rs = Inr (out1, j)"
    by (auto split: sum.splits prod.splits)
  from assms(1) [OF a] Cons.IH [OF b] show ?case by simp
qed

lemma same_view_refl: "same_view r r"
  by (simp add: same_view_def)

lemma same_view_stop:
  assumes "same_view r0 r" and "handle_stop_criteria m r t n 0 = (r', s)"
  shows "same_view r0 r'" and "tokens r' = tokens r"
    and "t = last (tokens r 0) \<Longrightarrow> n = int (length (tokens r 0)) \<Longrightarrow>
           s = stops_at m r0 (tokens r 0)"
  using assms
  by (auto simp: same_view_def handle_stop_criteria_def set_finished_reason_def stops_at_def
      meet_max_token_stop_criteria_def meet_stop_token_criteria_def get_tokens_def
      split: if_splits option.splits prod.splits)

lemma same_view_add:
  assumes "same_view r0 r" and "add_new_token r t 0 = (r', n)"
  shows "same_view r0 r'" and "tokens r' 0 = tokens r 0 @ [t]"
    and "n = int (length (tokens r 0)) + 1"
  using assms by (auto simp: same_view_def add_new_token_def Let_def)

lemma take_drop_snoc:
  "ti + k < length toks \<Longrightarrow>
     take (Suc k) (drop ti toks) = take k (drop ti toks) @ [toks ! (ti + k)]"
  by (simp add: take_Suc_conv_app_nth)

lemma accept_drafts_spec:
  assumes "accept_drafts m toks ti r nt k ds = Inr (r', k')"
    and "same_view r0 r"
    and "nt = toks ! (ti + k)"
    and "tokens r 0 = base @ take (Suc k) (drop ti toks)"
    and "ti + k < length toks"
  shows "same_view r0 r' \<and> k \<le> k' \<and> k' \<le> k + length ds \<and> ti + k' < length toks
         \<and> tokens r' 0 = base @ take (Suc k') (drop ti toks)
         \<and> (\<forall>j. k \<le> j \<and> j < k' \<longrightarrow> ds ! (j - k) = toks ! (ti + j))
         \<and> (\<forall>j. k < j \<and> j < k' \<longrightarrow> \<not> stops_at m r0 (base @ take (Suc j) (drop ti toks)))
         \<and> (k' < k + length ds \<longrightarrow>
              ds ! (k' - k) \<noteq> toks ! (ti + k')
              \<or> (k < k' \<and> stops_at m r0 (base @ take (Suc k') (drop ti toks))))"
  using assms
proof (induction ds arbitrary: r nt k)
  case Nil
  then show ?case by auto
next
  case (Cons d ds)
  show ?case
  proof (cases "d = nt")
    case False
    with Cons.prems show ?thesis by auto
  next
    case True
    with Cons.prems(1) have in_range: "ti + Suc k < length toks"
      by (auto simp: read_token_def split: if_splits)
    obtain r1 n where add: "add_new_token r (toks ! (ti + Suc k)) 0 = (r1, n)"
      by (cases "add_new_token r (toks ! (ti + Suc k)) 0")
    obtain r2 s where stop: "handle_stop_criteria m r1 (toks ! (ti + Suc k)) n 0 = (r2, s)"
      by (cases "handle_stop_criteria m r1 (toks ! (ti + Suc k)) n 0")
    note a = same_view_add [OF Cons.prems(2) add]
    have seq: "tokens r1 0 = base @ take (Suc (Suc k)) (drop ti toks)"
      using a(2) Cons.prems(4) in_range take_drop_snoc [of ti "Suc k" toks] by simp
    note b = same_view_stop [OF a(1) stop]
    have s_eq: "s = stops_at m r0 (base @ take (Suc (Suc k)) (drop ti toks))"
      using b(3) a(2,3) seq by simp
    have r2_seq: "tokens r2 0 = base @ take (Suc (Suc k)) (drop ti toks)"
      using b(2) seq by simp
    show ?thesis
    proof (cases s)
      case True
      with Cons.prems(1) \<open>d = nt\<close> in_range add stop
      have res: "r' = r2" "k' = Suc k"
        by (auto simp: read_token_def)
      have one: "\<And>j. k \<le> j \<Longrightarrow> j < Suc k \<Longrightarrow> j = k" by arith
      show ?thesis
        using res b(1) r2_seq in_range s_eq True \<open>d = nt\<close> Cons.prems(3)
        by (auto simp: Suc_le_eq dest: one)
    next
      case False
      with Cons.prems(1) \<open>d = nt\<close> in_range add stop
      have rec: "accept_drafts m toks ti r2 (toks ! (ti + Suc k)) (Suc k) ds = Inr (r', k')"
        by (auto simp: read_token_def)
      from Cons.IH [OF rec b(1) refl r2_seq in_range]
      have ih: "same_view r0 r'" "Suc k \<le> k'" "k' \<le> Suc k + length ds" "ti + k' < length toks"
        "tokens r' 0 = base @ take (Suc k') (drop ti toks)"
        "\<forall>j. Suc k \<le> j \<and> j < k' \<longrightarrow> ds ! (j - Suc k) = toks ! (ti + j)"
        "\<forall>j. Suc k < j \<and> j < k' \<longrightarrow> \<not> stops_at m r0 (base @ take (Suc j) (drop ti toks))"
        "k' < Suc k + length ds \<longrightarrow>
              ds ! (k' - Suc k) \<noteq> toks ! (ti + k')
              \<or> (Suc k < k' \<and> stops_at m r0 (base @ take (Suc k') (drop ti toks)))"
        by blast+
      have m1: "\<forall>j. k \<le> j \<and> j < k' \<longrightarrow> (d # ds) ! (j - k) = toks ! (ti + j)"
      proof (intro allI impI)
        fix j assume j: "k \<le> j \<and> j < k'"
        show "(d # ds) ! (j - k) = toks ! (ti + j)"
        proof (cases "j = k")
          case True
          then show ?thesis using \<open>d = nt\<close> Cons.prems(3) by simp
        next
          case False
          with j have "Suc k \<le> j" by simp
          with ih(6) j have "ds ! (j - Suc k) = toks ! (ti + j)" by blast
          moreover from \<open>Suc k \<le> j\<close> have "j - k = Suc (j - Suc k)" by simp
          ultimately show ?thesis by simp
        qed
      qed
      have m2: "\<forall>j. k < j \<and> j < k' \<longrightarrow> \<not> stops_at m r0 (base @ take (Suc j) (drop ti toks))"
      proof (intro allI impI)
        fix j assume j: "k < j \<and> j < k'"
        show "\<not> stops_at m r0 (base @ take (Suc j) (drop ti toks))"
        proof (cases "j = Suc k")
          case True
          then show ?thesis using s_eq False by simp
        next
          case False
          with j have "Suc k < j" by simp
          with ih(7) j show ?thesis by blast
        qed
      qed
      have m3: "k' < k + length (d # ds) \<longrightarrow>
              (d # ds) ! (k' - k) \<noteq> toks ! (ti + k')
              \<or> (k < k' \<and> stops_at m r0 (base @ take (Suc k') (drop ti toks)))"
      proof
        assume "k' < k + length (d # ds)"
        then have "k' < Suc k + length ds" by simp
        with ih(8) have c: "ds ! (k' - Suc k) \<noteq> toks ! (ti + k')
              \<or> (Suc k < k' \<and> stops_at m r0 (base @ take (Suc k') (drop ti toks)))" by blast
        from ih(2) have "k' - k = Suc (k' - Suc k)" by simp
        with c ih(2) show "(d # ds) ! (k' - k) \<noteq> toks ! (ti + k')
              \<or> (k < k' \<and> stops_at m r0 (base @ take (Suc k') (drop ti toks)))"
          by auto
      qed
      show ?thesis using ih(1-5) m1 m2 m3 by simp
    qed
  qed
qed

lemma update_extend_request_spec:
  assumes "py_draft_tokens request = Some draft_tokens"
    and "update_extend_request max_seq_len decoder_state i request = Inr (request', j)"
  shows "token_idx j = token_idx i + (1 + length draft_tokens)
     \<and> request_idx j = request_idx i + 1
     \<and> (state request = GENERATION_COMPLETE \<longrightarrow> request' = request)
     \<and> (state request \<noteq> GENERATION_COMPLETE \<longrightarrow>
         (\<exists>k \<le> length draft_tokens.
            token_idx i + k < length (new_tokens_host decoder_state)
          \<and> tokens request' 0 =
              tokens request 0 @ take (Suc k) (drop (token_idx i) (new_tokens_host decoder_state))
          \<and> (\<forall>b. b \<noteq> 0 \<longrightarrow> tokens request' b = tokens request b)
          \<and> py_num_accepted_draft_tokens request' = int k
          \<and> py_rewind_len request' = py_draft_pages_allocated request - int k
          \<and> (\<forall>n < k. draft_tokens ! n = new_tokens_host decoder_state ! (token_idx i + n))
          \<and> (\<forall>n. 0 < n \<and> n < k \<longrightarrow>
                \<not> stops_at max_seq_len request
                    (tokens request 0 @
                       take (Suc n) (drop (token_idx i) (new_tokens_host decoder_state))))
          \<and> (k < length draft_tokens \<longrightarrow>
                draft_tokens ! k \<noteq> new_tokens_host decoder_state ! (token_idx i + k)
              \<or> (0 < k \<and> stops_at max_seq_len request
                    (tokens request 0 @
                       take (Suc k) (drop (token_idx i) (new_tokens_host decoder_state)))))))"
proof (cases "state request = GENERATION_COMPLETE")
  case True
  with assms show ?thesis
    by (auto simp: update_extend_request_def advance_idx_def)
next
  case False
  define toks where "toks = new_tokens_host decoder_state"
  define ti where "ti = token_idx i"
  from assms False have in_range: "ti < length toks"
    by (auto simp: update_extend_request_def read_token_def toks_def ti_def split: if_splits)
  obtain r1 n where add: "add_new_token request (toks ! ti) 0 = (r1, n)"
    by (cases "add_new_token request (toks ! ti) 0")
  obtain r2 s where stop: "handle_stop_criteria max_seq_len r1 (toks ! ti) n 0 = (r2, s)"
    by (cases "handle_stop_criteria max_seq_len r1 (toks ! ti) n 0")
  from assms False in_range add stop obtain r3 k where
    acc: "accept_drafts max_seq_len toks ti r2 (toks ! ti) 0 draft_tokens = Inr (r3, k)"
    by (auto simp: update_extend_request_def read_token_def toks_def ti_def
        split: sum.splits)
  from assms False in_range add stop acc obtain r4 where
    hl: "handle_logits decoder_state i r3 k = Inr r4"
    and res: "request' = r4\<lparr>py_decoding_iter := py_decoding_iter r4 + 1,
                 py_num_accepted_draft_tokens := int k,
                 py_rewind_len := py_draft_pages_allocated r4 - int k\<rparr>"
    and j: "j = advance_idx i (length draft_tokens + 1)"
    by (auto simp: update_extend_request_def read_token_def toks_def ti_def
        split: sum.splits)
  note a = same_view_add [OF same_view_refl add]
  note b = same_view_stop [OF a(1) stop]
  have seq: "tokens r2 0 = tokens request 0 @ take (Suc 0) (drop ti toks)"
    using a(2) b(2) in_range take_drop_snoc [of ti 0 toks] by simp
  have "toks ! ti = toks ! (ti + 0)" "ti + 0 < length toks" using in_range by simp_all
  from accept_drafts_spec [OF acc b(1) this(1) seq this(2)]
  have spec: "same_view request r3" "k \<le> length draft_tokens" "ti + k < length toks"
    "tokens r3 0 = tokens request 0 @ take (Suc k) (drop ti toks)"
    "\<forall>n. n < k \<longrightarrow> draft_tokens ! n = toks ! (ti + n)"
    "\<forall>n. 0 < n \<and> n < k \<longrightarrow>
        \<not> stops_at max_seq_len request (tokens request 0 @ take (Suc n) (drop ti toks))"
    "k < length draft_tokens \<longrightarrow>
        draft_tokens ! k \<noteq> toks ! (ti + k)
        \<or> (0 < k \<and> stops_at max_seq_len request
                      (tokens request 0 @ take (Suc k) (drop ti toks)))"
    by simp_all
  note h = handle_logits_fields [OF hl]
  have pages: "py_draft_pages_allocated r4 = py_draft_pages_allocated request"
    using h(3) spec(1) by (simp add: same_view_def)
  have others: "\<forall>b. b \<noteq> 0 \<longrightarrow> tokens r4 b = tokens request b"
    using h(1) spec(1) by (simp add: same_view_def)
  have "\<exists>k \<le> length draft_tokens.
            ti + k < length toks
          \<and> tokens request' 0 = tokens request 0 @ take (Suc k) (drop ti toks)
          \<and> (\<forall>b. b \<noteq> 0 \<longrightarrow> tokens request' b = tokens request b)
          \<and> py_num_accepted_draft_tokens request' = int k
          \<and> py_rewind_len request' = py_draft_pages_allocated request - int k
          \<and> (\<forall>n < k. draft_tokens ! n = toks ! (ti + n))
          \<and> (\<forall>n. 0 < n \<and> n < k \<longrightarrow>
                \<not> stops_at max_seq_len request (tokens request 0 @ take (Suc n) (drop ti toks)))
          \<and> (k < length draft_tokens \<longrightarrow>
                draft_tokens ! k \<noteq> toks ! (ti + k)
              \<or> (0 < k \<and> stops_at max_seq_len request
                    (tokens request 0 @ take (Suc k) (drop ti toks))))"
    using spec(2-7) res h(1) pages others by (intro exI [of _ k]) simp
  then show ?thesis
    using False j by (simp add: advance_idx_def toks_def ti_def)
qed

lemma commit_row_spec:
  assumes "commit_one m ds i r = Inr r'"
  shows "\<forall>b. prefix (tokens r b) (tokens r' b)"
  using commit_one_tokens(1) [OF assms] by simp

lemma update_context_request_spec:
  assumes "update_context_request m ds i r = Inr (r', j)"
  shows "request_idx j = request_idx i + 1" "token_idx j = token_idx i + 1"
    "state r = GENERATION_COMPLETE \<longrightarrow> r' = r" "\<forall>b. prefix (tokens r b) (tokens r' b)"
  using assms
  by (auto simp: update_context_request_def advance_idx_def
      split: if_splits sum.splits dest: commit_row_spec)

lemma update_generation_request_spec:
  assumes "update_generation_request m ds i r = Inr (r', j)"
  shows "request_idx j = request_idx i + 1" "token_idx j = token_idx i + 1"
    "state r = GENERATION_COMPLETE \<longrightarrow> r' = r" "\<forall>b. prefix (tokens r b) (tokens r' b)"
  using assms
  by (auto simp: update_generation_request_def advance_idx_def
      split: if_splits sum.splits dest: commit_row_spec)

lemma update_extend_request_keeps:
  assumes "update_extend_request m ds i r = Inr (r', j)"
  shows "request_idx j = request_idx i + 1"
    "token_idx j = token_idx i + (1 + length (the (py_draft_tokens r)))"
    "state r = GENERATION_COMPLETE \<longrightarrow> r' = r" "\<forall>b. prefix (tokens r b) (tokens r' b)"
proof -
  from assms obtain dts where d: "py_draft_tokens r = Some dts"
    by (auto simp: update_extend_request_def split: option.splits)
  note s = update_extend_request_spec [OF d assms]
  from s d show "request_idx j = request_idx i + 1"
    "token_idx j = token_idx i + (1 + length (the (py_draft_tokens r)))"
    "state r = GENERATION_COMPLETE \<longrightarrow> r' = r"
    by simp_all
  show "\<forall>b. prefix (tokens r b) (tokens r' b)"
  proof
    fix b
    show "prefix (tokens r b) (tokens r' b)"
    proof (cases "state r = GENERATION_COMPLETE")
      case True
      with s show ?thesis by simp
    next
      case False
      with s obtain k where "k \<le> length dts"
        "token_idx i + k < length (new_tokens_host ds)"
        "tokens r' 0 = tokens r 0 @ take (Suc k) (drop (token_idx i) (new_tokens_host ds))"
        "\<forall>b. b \<noteq> 0 \<longrightarrow> tokens r' b = tokens r b"
        by blast
      then show ?thesis by (cases "b = 0") auto
    qed
  qed
qed

lemma update_requests_parts:
  assumes "update_requests m ds = Inr res"
  shows "\<exists>i1 i3.
      for_requests (update_context_request m ds) \<lparr>request_idx = 0, token_idx = 0\<rparr>
        (context_requests (scheduled_requests ds)) = Inr (context_after res, i1)
    \<and> for_requests (update_extend_request m ds)
        (case chunked_requests (scheduled_requests ds) of
           None \<Rightarrow> i1
         | Some chunked \<Rightarrow> i1\<lparr>request_idx := request_idx i1 + length chunked\<rparr>)
        (extend_requests_of (scheduled_requests ds)) = Inr (extend_after res, i3)
    \<and> for_requests (update_generation_request m ds) i3
        (plain_requests_of (scheduled_requests ds))
        = Inr (generation_after res, indices_after res)"
  using assms
  by (auto simp: update_requests_def Let_def split: sum.splits prod.splits)

lemma mixed_run:
  "update_requests 100 mixed_state =
     Inr mixed_result"
  by (simp add: mixed_result_def mixed_state_def done_request_def prefill_request_def spec_request_def
      base_request_def commit_defs)

section \<open>Draft acceptance\<close>




section \<open>Row offsets\<close>

text \<open>
  With a token buffer of at least as many rows as the commit step walks over, and no
  request that asks for log-probabilities, the step returns: no read is out of range.
\<close>

lemma handle_logits_returns:
  "\<not> py_return_log_probs r \<Longrightarrow> \<exists>r'. handle_logits ds i r c = Inr r'"
  by (auto simp: handle_logits_def Let_def split: option.splits)

lemma accept_drafts_returns:
  "ti + k + length dts < length toks \<Longrightarrow>
     \<exists>r' k'. accept_drafts m toks ti r nt k dts = Inr (r', k')"
proof (induction dts arbitrary: r nt k)
  case Nil
  then show ?case by simp
next
  case (Cons d dts)
  obtain r1 n where add: "add_new_token r (toks ! (ti + Suc k)) 0 = (r1, n)"
    by (cases "add_new_token r (toks ! (ti + Suc k)) 0")
  obtain r2 s where stop: "handle_stop_criteria m r1 (toks ! (ti + Suc k)) n 0 = (r2, s)"
    by (cases "handle_stop_criteria m r1 (toks ! (ti + Suc k)) n 0")
  from Cons.prems have "ti + Suc k + length dts < length toks" by simp
  from Cons.IH [OF this, of r2 "toks ! (ti + Suc k)"] Cons.prems add stop
  show ?case by (auto simp: read_token_def)
qed

lemma commit_one_returns:
  assumes "token_idx i < length (new_tokens_host ds)" and "\<not> py_return_log_probs r"
  shows "\<exists>r'. commit_one m ds i r = Inr r'"
proof -
  let ?t = "new_tokens_host ds ! token_idx i"
  obtain r1 n where add: "add_new_token r ?t 0 = (r1, n)"
    by (cases "add_new_token r ?t 0")
  obtain r2 s where stop: "handle_stop_criteria m r1 ?t n 0 = (r2, s)"
    by (cases "handle_stop_criteria m r1 ?t n 0")
  from same_view_stop(1) [OF same_view_add(1) [OF same_view_refl add] stop] assms(2)
  have "\<not> py_return_log_probs r2" by (simp add: same_view_def)
  from handle_logits_returns [OF this, of ds i 1] assms(1) add stop
  show ?thesis by (auto simp: commit_one_def read_token_def)
qed

lemma update_context_request_returns:
  assumes "token_idx i + 1 \<le> length (new_tokens_host ds)" and "\<not> py_return_log_probs r"
  shows "\<exists>r' j. update_context_request m ds i r = Inr (r', j)"
  using commit_one_returns [of i ds r m] assms
  by (auto simp: update_context_request_def)

lemma update_generation_request_returns:
  assumes "token_idx i + 1 \<le> length (new_tokens_host ds)" and "\<not> py_return_log_probs r"
  shows "\<exists>r' j. update_generation_request m ds i r = Inr (r', j)"
  using commit_one_returns [of i ds r m] assms
  by (auto simp: update_generation_request_def)

lemma update_extend_request_returns:
  assumes "py_draft_tokens r = Some dts"
    and "token_idx i + (1 + length dts) \<le> length (new_tokens_host ds)"
    and "\<not> py_return_log_probs r"
  shows "\<exists>r' j. update_extend_request m ds i r = Inr (r', j)"
proof (cases "state r = GENERATION_COMPLETE")
  case True
  with assms(1) show ?thesis by (simp add: update_extend_request_def)
next
  case False
  let ?toks = "new_tokens_host ds"
  let ?t = "?toks ! token_idx i"
  obtain r1 n where add: "add_new_token r ?t 0 = (r1, n)"
    by (cases "add_new_token r ?t 0")
  obtain r2 s where stop: "handle_stop_criteria m r1 ?t n 0 = (r2, s)"
    by (cases "handle_stop_criteria m r1 ?t n 0")
  from assms(2) have "token_idx i + 0 + length dts < length ?toks" by simp
  from accept_drafts_returns [OF this, of m r2 ?t] obtain r3 k where
    acc: "accept_drafts m ?toks (token_idx i) r2 ?t 0 dts = Inr (r3, k)" by blast
  note v2 = same_view_stop(1) [OF same_view_add(1) [OF same_view_refl add] stop]
  have seq: "tokens r2 0 = tokens r 0 @ take (Suc 0) (drop (token_idx i) ?toks)"
    using same_view_add(2) [OF same_view_refl add]
      same_view_stop(2) [OF same_view_add(1) [OF same_view_refl add] stop] assms(2)
      take_drop_snoc [of "token_idx i" 0 ?toks]
    by simp
  have "?t = ?toks ! (token_idx i + 0)" "token_idx i + 0 < length ?toks"
    using assms(2) by simp_all
  from accept_drafts_spec [OF acc v2 this(1) seq this(2)] assms(3)
  have "\<not> py_return_log_probs r3" by (simp add: same_view_def)
  from handle_logits_returns [OF this, of ds i k] obtain r4 where
    "handle_logits ds i r3 k = Inr r4" by blast
  with False assms(1,2) add stop acc show ?thesis
    by (simp add: update_extend_request_def read_token_def)
qed

lemma for_requests_returns:
  assumes "\<And>i r. r \<in> set rs \<Longrightarrow> token_idx i + w r \<le> n \<Longrightarrow> \<exists>r' j. body i r = Inr (r', j)"
    and "\<And>i r r' j. body i r = Inr (r', j) \<Longrightarrow> token_idx j = token_idx i + w r"
    and "token_idx i + sum_list (map w rs) \<le> n"
  shows "\<exists>out j. for_requests body i rs = Inr (out, j)
           \<and> token_idx j = token_idx i + sum_list (map w rs)"
  using assms(1,3)
proof (induction rs arbitrary: i)
  case Nil
  then show ?case by simp
next
  case (Cons r rs)
  from Cons.prems(2) have "token_idx i + w r \<le> n" by simp
  with Cons.prems(1) [of r i] obtain r1 i1 where b: "body i r = Inr (r1, i1)" by auto
  from assms(2) [OF b] have i1: "token_idx i1 = token_idx i + w r" .
  with Cons.prems(2) have "token_idx i1 + sum_list (map w rs) \<le> n" by simp
  from Cons.IH [OF _ this] Cons.prems(1) obtain out j where
    "for_requests body i1 rs = Inr (out, j)"
    "token_idx j = token_idx i1 + sum_list (map w rs)"
    by auto
  with b i1 show ?case by simp
qed

lemma update_requests_returns:
  assumes "rows_walked (scheduled_requests ds) \<le> length (new_tokens_host ds)"
    and "\<forall>r \<in> set (context_requests (scheduled_requests ds))
              \<union> set (generation_requests (scheduled_requests ds)). \<not> py_return_log_probs r"
  shows "\<exists>res. update_requests m ds = Inr res"
proof -
  let ?s = "scheduled_requests ds"
  let ?n = "length (new_tokens_host ds)"
  let ?we = "\<lambda>r. 1 + length (the (py_draft_tokens r))"
  have ones: "\<And>rs :: LlmRequest list. sum_list (map (\<lambda>r. Suc 0) rs) = length rs"
    by (induct_tac rs) simp_all
  from assms(1) have bound:
    "length (context_requests ?s) + sum_list (map ?we (extend_requests_of ?s))
       + length (plain_requests_of ?s) \<le> ?n"
    by (simp add: rows_walked_def)
  have "\<exists>out j. for_requests (update_context_request m ds) \<lparr>request_idx = 0, token_idx = 0\<rparr>
            (context_requests ?s) = Inr (out, j)
          \<and> token_idx j = token_idx \<lparr>request_idx = 0, token_idx = 0\<rparr>
               + sum_list (map (\<lambda>r. 1) (context_requests ?s))"
  proof (rule for_requests_returns [where n = ?n])
    fix i :: indices and r assume "r \<in> set (context_requests ?s)" "token_idx i + 1 \<le> ?n"
    with assms(2) show "\<exists>r' j. update_context_request m ds i r = Inr (r', j)"
      by (intro update_context_request_returns) auto
  next
    fix i :: indices and r r' j assume "update_context_request m ds i r = Inr (r', j)"
    then show "token_idx j = token_idx i + 1" by (rule update_context_request_spec(2))
  next
    from bound show "token_idx \<lparr>request_idx = 0, token_idx = 0\<rparr>
        + sum_list (map (\<lambda>r. 1) (context_requests ?s)) \<le> ?n"
      by (simp add: ones)
  qed
  then obtain ctx i1 where
    c: "for_requests (update_context_request m ds) \<lparr>request_idx = 0, token_idx = 0\<rparr>
          (context_requests ?s) = Inr (ctx, i1)"
    and i1: "token_idx i1 = length (context_requests ?s)"
    by (auto simp: ones)
  define i2 where "i2 = (case chunked_requests ?s of
       None \<Rightarrow> i1
     | Some chunked \<Rightarrow> i1\<lparr>request_idx := request_idx i1 + length chunked\<rparr>)"
  have i2: "token_idx i2 = length (context_requests ?s)"
    using i1 by (simp add: i2_def split: option.splits)
  have "\<exists>out j. for_requests (update_extend_request m ds) i2 (extend_requests_of ?s)
            = Inr (out, j)
          \<and> token_idx j = token_idx i2 + sum_list (map ?we (extend_requests_of ?s))"
  proof (rule for_requests_returns [where n = ?n])
    fix i :: indices and r assume r: "r \<in> set (extend_requests_of ?s)" and b: "token_idx i + ?we r \<le> ?n"
    from r obtain dts where d: "py_draft_tokens r = Some dts"
      by (auto simp: extend_requests_of_def)
    from r assms(2) have "\<not> py_return_log_probs r" by (auto simp: extend_requests_of_def)
    with d b show "\<exists>r' j. update_extend_request m ds i r = Inr (r', j)"
      by (intro update_extend_request_returns [of r dts]) simp_all
  next
    fix i :: indices and r r' j assume "update_extend_request m ds i r = Inr (r', j)"
    then show "token_idx j = token_idx i + ?we r" by (rule update_extend_request_keeps(2))
  next
    from bound i2 show "token_idx i2 + sum_list (map ?we (extend_requests_of ?s)) \<le> ?n"
      by simp
  qed
  then obtain ext i3 where
    e: "for_requests (update_extend_request m ds) i2 (extend_requests_of ?s) = Inr (ext, i3)"
    and i3: "token_idx i3 = token_idx i2 + sum_list (map ?we (extend_requests_of ?s))"
    by blast
  have "\<exists>out j. for_requests (update_generation_request m ds) i3 (plain_requests_of ?s)
            = Inr (out, j)
          \<and> token_idx j = token_idx i3 + sum_list (map (\<lambda>r. 1) (plain_requests_of ?s))"
  proof (rule for_requests_returns [where n = ?n])
    fix i :: indices and r assume "r \<in> set (plain_requests_of ?s)" "token_idx i + 1 \<le> ?n"
    with assms(2) show "\<exists>r' j. update_generation_request m ds i r = Inr (r', j)"
      by (intro update_generation_request_returns) (auto simp: plain_requests_of_def)
  next
    fix i :: indices and r r' j assume "update_generation_request m ds i r = Inr (r', j)"
    then show "token_idx j = token_idx i + 1" by (rule update_generation_request_spec(2))
  next
    from bound i2 i3 show "token_idx i3 + sum_list (map (\<lambda>r. 1) (plain_requests_of ?s)) \<le> ?n"
      by (simp add: ones)
  qed
  then obtain gen i4 where
    g: "for_requests (update_generation_request m ds) i3 (plain_requests_of ?s) = Inr (gen, i4)"
    by blast
  from c e g show ?thesis
    by (simp add: update_requests_def i2_def Let_def)
qed

text \<open>
  Where the two counters stand when the commit step returns: the token-row offset has
  moved by one row per context request, \<open>1 + len(draft_tokens)\<close> rows per extend
  request and one row per plain generation request; the chunked requests have moved the
  request counter only.
\<close>

lemma update_requests_indices:
  assumes "update_requests max_seq_len decoder_state = Inr res"
  shows "token_idx (indices_after res) = rows_walked (scheduled_requests decoder_state)
       \<and> request_idx (indices_after res) =
           length (context_requests (scheduled_requests decoder_state))
           + (case chunked_requests (scheduled_requests decoder_state) of
                None \<Rightarrow> 0 | Some chunked \<Rightarrow> length chunked)
           + length (generation_requests (scheduled_requests decoder_state))"
proof -
  let ?s = "scheduled_requests decoder_state"
  from update_requests_parts [OF assms] obtain i1 i3 where
    c: "for_requests (update_context_request max_seq_len decoder_state)
          \<lparr>request_idx = 0, token_idx = 0\<rparr> (context_requests ?s) = Inr (context_after res, i1)"
    and e: "for_requests (update_extend_request max_seq_len decoder_state)
          (case chunked_requests ?s of
             None \<Rightarrow> i1
           | Some chunked \<Rightarrow> i1\<lparr>request_idx := request_idx i1 + length chunked\<rparr>)
          (extend_requests_of ?s) = Inr (extend_after res, i3)"
    and g: "for_requests (update_generation_request max_seq_len decoder_state) i3
          (plain_requests_of ?s) = Inr (generation_after res, indices_after res)"
    by blast
  have c': "request_idx i1 = length (context_requests ?s)
            \<and> token_idx i1 = sum_list (map (\<lambda>r. 1) (context_requests ?s))"
    using for_requests_indices [OF _ c, of "\<lambda>r. 1"]
    by (simp add: update_context_request_spec)
  have e': "request_idx i3 =
              request_idx (case chunked_requests ?s of
                 None \<Rightarrow> i1
               | Some chunked \<Rightarrow> i1\<lparr>request_idx := request_idx i1 + length chunked\<rparr>)
              + length (extend_requests_of ?s)
            \<and> token_idx i3 =
              token_idx (case chunked_requests ?s of
                 None \<Rightarrow> i1
               | Some chunked \<Rightarrow> i1\<lparr>request_idx := request_idx i1 + length chunked\<rparr>)
              + sum_list (map (\<lambda>r. 1 + length (the (py_draft_tokens r))) (extend_requests_of ?s))"
    by (rule for_requests_indices [OF _ e]) (simp add: update_extend_request_keeps)
  have g': "request_idx (indices_after res) = request_idx i3 + length (plain_requests_of ?s)
            \<and> token_idx (indices_after res)
                = token_idx i3 + sum_list (map (\<lambda>r. 1) (plain_requests_of ?s))"
    by (rule for_requests_indices [OF _ g]) (simp add: update_generation_request_spec)
  have len: "length (extend_requests_of ?s) + length (plain_requests_of ?s)
             = length (generation_requests ?s)"
    unfolding extend_requests_of_def plain_requests_of_def
    using sum_length_filter_compl [of "\<lambda>r. py_draft_tokens r \<noteq> None" "generation_requests ?s"]
    by simp
  have ones: "\<And>rs :: LlmRequest list. sum_list (map (\<lambda>r. Suc 0) rs) = length rs"
    by (induct_tac rs) simp_all
  show ?thesis
    using c' e' g' len
    by (cases "chunked_requests ?s") (simp_all add: rows_walked_def ones)
qed

text \<open>
  A batch of two context requests, one extend request with three draft tokens and two
  plain generation requests walks over eight rows.
\<close>

lemma update_requests_indices_example:
  "update_requests 100 mixed_state = Inr mixed_result
   \<and> token_idx (indices_after mixed_result) = 8
   \<and> rows_walked (scheduled_requests mixed_state) = 8
   \<and> request_idx (indices_after mixed_result) = 5"
  using update_requests_indices [of 100 mixed_state mixed_result] mixed_run
  by (simp add: mixed_result_def)

text \<open>
  C3. The rows of the chunked requests lie between the context rows and the generation
  rows of the buffer, and the token-row offset has to pass them as it passes the row of a
  context request in mid-prefill. It does not: with one context request, one chunked
  request and one generation request over the buffer \<open>[5, 6, 7]\<close>, the generation
  request commits \<open>6\<close>, the token in the row of the chunked request, and the offset
  ends at two of the three rows.
\<close>

theorem chunked_rows_not_passed:
  "length (context_requests (scheduled_requests chunk_state))
     + length (the (chunked_requests (scheduled_requests chunk_state)))
     + length (generation_requests (scheduled_requests chunk_state)) = 3
   \<and> new_tokens_host chunk_state = [5, 6, 7]
   \<and> \<not> isl (update_requests 100 chunk_state)
   \<and> tokens (context_after (projr (update_requests 100 chunk_state)) ! 0) 0 = [5]
   \<and> tokens (generation_after (projr (update_requests 100 chunk_state)) ! 0) 0 = [6]
   \<and> token_idx (indices_after (projr (update_requests 100 chunk_state))) = 2
   \<and> request_idx (indices_after (projr (update_requests 100 chunk_state))) = 3"
  by (simp add: chunk_state_def base_request_def commit_defs)

section \<open>Completed requests\<close>

text \<open>
  A request that is already \<open>GENERATION_COMPLETE\<close> when the commit step reaches its
  row comes out unchanged: no token is appended and the iteration counter is as before.
  For every request the token sequence of every beam after the step extends the one
  before.
\<close>

lemma completed_on_entry_untouched:
  assumes "update_requests max_seq_len decoder_state = Inr res"
  shows "list_all2 (\<lambda>r r'. (state r = GENERATION_COMPLETE \<longrightarrow> r' = r)
                          \<and> (\<forall>b. prefix (tokens r b) (tokens r' b)))
           (context_requests (scheduled_requests decoder_state)) (context_after res)
       \<and> list_all2 (\<lambda>r r'. (state r = GENERATION_COMPLETE \<longrightarrow> r' = r)
                          \<and> (\<forall>b. prefix (tokens r b) (tokens r' b)))
           (plain_requests_of (scheduled_requests decoder_state)) (generation_after res)
       \<and> list_all2 (\<lambda>r r'. (state r = GENERATION_COMPLETE \<longrightarrow> r' = r)
                          \<and> (\<forall>b. prefix (tokens r b) (tokens r' b)))
           (extend_requests_of (scheduled_requests decoder_state)) (extend_after res)"
proof -
  from update_requests_parts [OF assms] obtain i1 i2 i3 where
    c: "for_requests (update_context_request max_seq_len decoder_state)
          \<lparr>request_idx = 0, token_idx = 0\<rparr>
          (context_requests (scheduled_requests decoder_state)) = Inr (context_after res, i1)"
    and e: "for_requests (update_extend_request max_seq_len decoder_state) i2
          (extend_requests_of (scheduled_requests decoder_state)) = Inr (extend_after res, i3)"
    and g: "for_requests (update_generation_request max_seq_len decoder_state) i3
          (plain_requests_of (scheduled_requests decoder_state))
          = Inr (generation_after res, indices_after res)"
    by blast
  show ?thesis
    by (intro conjI for_requests_pointwise [OF _ c] for_requests_pointwise [OF _ g]
        for_requests_pointwise [OF _ e])
      (simp_all add: update_context_request_spec update_generation_request_spec
        update_extend_request_keeps)
qed

text \<open>
  In \<open>mixed_state\<close> the completed request sits in the context list and in the
  generation list; both copies come out as they went in.
\<close>

lemma completed_on_entry_untouched_example:
  "update_requests 100 mixed_state = Inr mixed_result
   \<and> state done_request = GENERATION_COMPLETE
   \<and> context_after mixed_result ! 0 = done_request
   \<and> generation_after mixed_result ! 0 = done_request
   \<and> tokens (generation_after mixed_result ! 1) 0 = [3]"
  using completed_on_entry_untouched [of 100 mixed_state mixed_result] mixed_run
  by (simp add: mixed_result_def done_request_def base_request_def)

text \<open>
  C6. A sequence has to stop growing once its request is complete. In the row of an
  extend request it does not: the result of the stop criteria on the first commit is
  dropped, where the loop over the draft tokens ends on it. With the sequence \<open>[1]\<close>,
  end-of-sequence id \<open>2\<close>, draft tokens \<open>[2, 7]\<close> and the buffer \<open>[2, 7, 9]\<close>,
  the first commit completes the request with \<open>END_ID\<close>, and the tokens \<open>7\<close> and
  \<open>9\<close> are appended after it.
\<close>

theorem extend_appends_after_completion:
  "handle_stop_criteria 100 (fst (add_new_token eos_first_request 2 0)) 2 2 0 =
     (eos_first_request\<lparr>tokens := (\<lambda>beam. [])(0 := [1, 2]), state := GENERATION_COMPLETE,
        finished_reason := (\<lambda>beam. NOT_FINISHED)(0 := END_ID)\<rparr>, True)
   \<and> \<not> isl (update_extend_request 100 eos_first_state \<lparr>request_idx = 0, token_idx = 0\<rparr>
              eos_first_request)
   \<and> tokens (fst (projr (update_extend_request 100 eos_first_state
                  \<lparr>request_idx = 0, token_idx = 0\<rparr> eos_first_request))) 0 = [1, 2, 7, 9]
   \<and> state (fst (projr (update_extend_request 100 eos_first_state
                  \<lparr>request_idx = 0, token_idx = 0\<rparr> eos_first_request)))
       = GENERATION_COMPLETE
   \<and> finished_reason (fst (projr (update_extend_request 100 eos_first_state
                  \<lparr>request_idx = 0, token_idx = 0\<rparr> eos_first_request))) 0 = END_ID
   \<and> py_num_accepted_draft_tokens (fst (projr (update_extend_request 100 eos_first_state
                  \<lparr>request_idx = 0, token_idx = 0\<rparr> eos_first_request))) = 2"
  by (simp add: eos_first_state_def eos_first_request_def base_request_def commit_defs)

section \<open>Captured generation logits\<close>

text \<open>
  For an extend request that asks for its generation logits, the slice appended has as
  many rows as draft tokens were accepted, starting at the request's row offset.
\<close>

lemma extend_logits_slice:
  assumes "py_draft_tokens request = Some draft_tokens"
    and "state request \<noteq> GENERATION_COMPLETE"
    and "py_return_generation_logits request" and "\<not> py_return_log_probs request"
    and "logits decoder_state = Some lg"
    and "update_extend_request max_seq_len decoder_state i request = Inr (request', j)"
  shows "generation_logits request' =
           generation_logits request @
             [take (nat (py_num_accepted_draft_tokens request')) (drop (token_idx i) lg)]"
proof -
  define toks where "toks = new_tokens_host decoder_state"
  define ti where "ti = token_idx i"
  from assms have in_range: "ti < length toks"
    by (auto simp: update_extend_request_def read_token_def toks_def ti_def split: if_splits)
  obtain r1 n where add: "add_new_token request (toks ! ti) 0 = (r1, n)"
    by (cases "add_new_token request (toks ! ti) 0")
  obtain r2 s where stop: "handle_stop_criteria max_seq_len r1 (toks ! ti) n 0 = (r2, s)"
    by (cases "handle_stop_criteria max_seq_len r1 (toks ! ti) n 0")
  from assms in_range add stop obtain r3 k where
    acc: "accept_drafts max_seq_len toks ti r2 (toks ! ti) 0 draft_tokens = Inr (r3, k)"
    by (auto simp: update_extend_request_def read_token_def toks_def ti_def
        split: sum.splits)
  from assms in_range add stop acc obtain r4 where
    hl: "handle_logits decoder_state i r3 k = Inr r4"
    and res: "request' = r4\<lparr>py_decoding_iter := py_decoding_iter r4 + 1,
                 py_num_accepted_draft_tokens := int k,
                 py_rewind_len := py_draft_pages_allocated r4 - int k\<rparr>"
    by (auto simp: update_extend_request_def read_token_def toks_def ti_def
        split: sum.splits)
  note a = same_view_add [OF same_view_refl add]
  note b = same_view_stop [OF a(1) stop]
  have seq: "tokens r2 0 = tokens request 0 @ take (Suc 0) (drop ti toks)"
    using a(2) b(2) in_range take_drop_snoc [of ti 0 toks] by simp
  have "toks ! ti = toks ! (ti + 0)" "ti + 0 < length toks" using in_range by simp_all
  from accept_drafts_spec [OF acc b(1) this(1) seq this(2)]
  have v: "same_view request r3" by simp
  from v assms(3,4) have f: "py_return_generation_logits r3" "\<not> py_return_log_probs r3"
    "generation_logits r3 = generation_logits request"
    by (simp_all add: same_view_def)
  from hl f assms(5) have "generation_logits r4 =
      generation_logits request @ [take k (drop (token_idx i) lg)]"
    by (auto simp: handle_logits_def Let_def)
  with res show ?thesis by simp
qed

text \<open>
  C9. The slice is one row short of the tokens committed. With no draft token accepted one
  token is committed and the slice appended is empty; with two accepted, three tokens are
  committed and the slice has the first two rows.
\<close>

theorem extend_logits_slice_short:
  "tokens (fst (projr (update_extend_request 100 logits_state
                  \<lparr>request_idx = 0, token_idx = 0\<rparr> logits_request))) 0 = [1, 5]
   \<and> py_num_accepted_draft_tokens (fst (projr (update_extend_request 100 logits_state
                  \<lparr>request_idx = 0, token_idx = 0\<rparr> logits_request))) = 0
   \<and> generation_logits (fst (projr (update_extend_request 100 logits_state
                  \<lparr>request_idx = 0, token_idx = 0\<rparr> logits_request))) = [[]]
   \<and> tokens (fst (projr (update_extend_request 100 logits_state2
                  \<lparr>request_idx = 0, token_idx = 0\<rparr>
                  (logits_request\<lparr>py_draft_tokens := Some [5, 9, 4]\<rparr>)))) 0 = [1, 5, 9, 6]
   \<and> generation_logits (fst (projr (update_extend_request 100 logits_state2
                  \<lparr>request_idx = 0, token_idx = 0\<rparr>
                  (logits_request\<lparr>py_draft_tokens := Some [5, 9, 4]\<rparr>))))
       = [[[0, 1], [1, 0]]]"
  by (simp add: logits_state_def logits_state2_def logits_request_def base_request_def
      commit_defs)

section \<open>Producer and consumer in mixed mode\<close>

lemma greedy_132: "greedy_row [1, 3, 2] = Inr (1, ln (softmax [1, 3, 2] ! 1))"
  by (simp add: greedy_row_def argmax_def Let_def)

lemma stale_decode:
  "mixed_decode (\<lambda>probs. 0) stale_batch stale_logits =
     Inr \<lparr>scheduled_requests = stale_batch, logits = Some stale_logits,
          log_probs = Some [None], new_tokens_host = [1]\<rparr>"
  by (simp add: mixed_decode_def stale_batch_def stale_logits_def done_request_def
      base_request_def mixed_step_def decode_single_request_def
      greedy_search_sampling_batch_def unzip_result_def greedy_132)

text \<open>
  C10. The mixed mode emits no token for a generation request that is already complete,
  while the commit step moves one row forward for it. With a completed request ahead of
  an active one the buffer has one token, and the commit step reads the second.
\<close>

theorem stale_generation_rows_misaligned:
  "rows_walked stale_batch = 2
   \<and> map_sum id new_tokens_host (mixed_decode (\<lambda>probs. 0) stale_batch stale_logits)
       = Inr [1]
   \<and> update_requests 100 (projr (mixed_decode (\<lambda>probs. 0) stale_batch stale_logits))
       = Inl IndexError"
  by (simp add: stale_decode)
    (simp add: stale_batch_def done_request_def base_request_def rows_walked_def commit_defs)

section \<open>Sampling policies: top-k and rank 1 inputs\<close>

lemma weight_nonneg: "0 \<le> weight x"
  by (cases x) simp_all

lemma weight_sum_pos:
  assumes "t < length xs" and "xs ! t = Some x"
  shows "0 < (\<Sum>y\<leftarrow>xs. weight y)"
proof -
  have "weight (xs ! t) \<in> set (map weight xs)" using assms(1) by simp
  moreover have "\<And>w. w \<in> set (map weight xs) \<Longrightarrow> 0 \<le> w"
    using weight_nonneg by auto
  ultimately have "weight (xs ! t) \<le> sum_list (map weight xs)"
    by (intro member_le_sum_list) auto
  moreover have "0 < weight (xs ! t)" using assms(2) by simp
  ultimately show ?thesis by simp
qed

lemma softmax_masked_pos:
  assumes "t < length xs"
  shows "0 < softmax_masked xs ! t \<longleftrightarrow> xs ! t \<noteq> None"
proof (cases "xs ! t")
  case None
  with assms show ?thesis by (simp add: softmax_masked_def)
next
  case (Some x)
  from weight_sum_pos [OF assms Some] Some assms show ?thesis
    by (simp add: softmax_masked_def)
qed

lemma last_take:
  assumes "0 < k" and "k \<le> length xs"
  shows "last (take k xs) = xs ! (k - 1)"
proof -
  from assms have "take k xs \<noteq> []" by auto
  then have "last (take k xs) = take k xs ! (length (take k xs) - 1)"
    by (rule last_conv_nth)
  with assms show ?thesis by simp
qed

lemma top_k_probs_support:
  assumes "0 < k" and "k \<le> length row" and "t < length row"
  shows "0 < top_k_probs row k ! t \<longleftrightarrow> rev (sort row) ! (k - 1) \<le> row ! t"
proof -
  have "last (topk_values row k) = rev (sort row) ! (k - 1)"
    unfolding topk_values_def using assms(1,2) by (intro last_take) simp_all
  with assms(3) show ?thesis
    by (auto simp: top_k_probs_def Let_def softmax_masked_pos)
qed

lemma map_result_Inr:
  "map_result f xs = Inr ys \<Longrightarrow>
     length ys = length xs \<and> (\<forall>n < length xs. f (xs ! n) = Inr (ys ! n))"
proof (induction xs arbitrary: ys)
  case Nil
  then show ?case by simp
next
  case (Cons x xs)
  then show ?case
    by (auto simp: nth_Cons split: sum.splits nat.splits)
qed

text \<open>
  C7. When top-k sampling with parameter \<open>k\<close> returns, \<open>k\<close> is within the row, and in
  every row a token has a nonzero probability in the restricted distribution exactly when
  its score is at least the \<open>k\<close>-th largest score of the row. The token returned for
  the row is the one drawn from that distribution, and the value returned with it is the
  natural logarithm of its probability in the softmax of the unrestricted row.
\<close>

theorem top_k_bound:
  assumes "top_k_sampling_batch pick (Mat rows) k = Inr (next_tokens, logps)"
    and "r < length rows"
  shows "0 < k \<and> k \<le> int (length (rows ! r))
       \<and> (\<forall>t < length (rows ! r).
            0 < top_k_probs (rows ! r) (nat k) ! t
            \<longleftrightarrow> rev (sort (rows ! r)) ! (nat k - 1) \<le> rows ! r ! t)
       \<and> next_tokens ! r = pick (top_k_probs (rows ! r) (nat k))
       \<and> logps ! r = ln (softmax (rows ! r) ! (next_tokens ! r))"
proof -
  from assms(1) obtain ps where
    ps: "map_result (top_k_row pick k) rows = Inr ps"
    and nt: "next_tokens = map fst ps" and lpeq: "logps = map snd ps"
    by (auto simp: top_k_sampling_batch_def unzip_result_def split: sum.splits)
  from map_result_Inr [OF ps] assms(2) have
    len: "length ps = length rows" and row: "top_k_row pick k (rows ! r) = Inr (ps ! r)"
    by simp_all
  from row have k: "0 < k" "k \<le> int (length (rows ! r))"
    by (auto simp: top_k_row_def split: if_splits)
  from row k have val: "ps ! r = (pick (top_k_probs (rows ! r) (nat k)),
      ln (softmax (rows ! r) ! pick (top_k_probs (rows ! r) (nat k))))"
    by (auto simp: top_k_row_def Let_def split: if_splits)
  from k have k': "0 < nat k" "nat k \<le> length (rows ! r)" by simp_all
  show ?thesis
    using k val nt lpeq len assms(2) top_k_probs_support [OF k']
    by simp
qed

lemma top_k_run:
  "top_k_sampling_batch (\<lambda>probs. 1) (Mat [[1, 3, 2]]) 2
     = Inr ([1], [ln (softmax [1, 3, 2] ! 1)])"
  by (simp add: top_k_sampling_batch_def top_k_row_def unzip_result_def Let_def)

text \<open>
  The row \<open>[1, 3, 2]\<close> with \<open>k = 2\<close>: the second largest score is \<open>2\<close>, the token
  of score \<open>3\<close> can be drawn and the token of score \<open>1\<close> cannot.
\<close>

theorem top_k_bound_witness:
  "top_k_sampling_batch (\<lambda>probs. 1) (Mat [[1, 3, 2]]) 2
     = Inr ([1], [ln (softmax [1, 3, 2] ! 1)])
   \<and> (0::nat) < length [[1, 3, 2 :: real]]
   \<and> 0 < top_k_probs [1, 3, 2] 2 ! 1
   \<and> rev (sort [1, 3, 2 :: real]) ! 1 \<le> [1, 3, 2] ! 1
   \<and> \<not> 0 < top_k_probs [1, 3, 2] 2 ! 0"
  using top_k_bound [of "\<lambda>probs. 1" "[[1, 3, 2]]" 2 "[1]" "[ln (softmax [1, 3, 2] ! 1)]" 0]
    top_k_run
  by (simp add: nth_Cons')

text \<open>
  Top-k and top-p sampling promote a rank 1 input to a matrix of one row.
\<close>

lemma top_k_promotes:
  "top_k_sampling_batch pick (Vec v) k = top_k_sampling_batch pick (Mat [v]) k"
  by (simp add: top_k_sampling_batch_def)

lemma top_p_promotes:
  "top_p_sampling_batch pick (Vec v) p = top_p_sampling_batch pick (Mat [v]) p"
  by (simp add: top_p_sampling_batch_def)

text \<open>
  C8. The greedy policy does not: on the vector \<open>[1, 3, 2]\<close> it raises, where on the
  matrix of that one row it returns token \<open>1\<close>, and where top-k sampling accepts the
  vector.
\<close>

theorem greedy_rejects_vector:
  "greedy_search_sampling_batch (Vec [1, 3, 2]) = Inl IndexError
   \<and> greedy_search_sampling_batch (Mat [[1, 3, 2]]) = Inr ([1], [ln (softmax [1, 3, 2] ! 1)])
   \<and> top_k_sampling_batch (\<lambda>probs. 1) (Vec [1, 3, 2]) 2
       = Inr ([1], [ln (softmax [1, 3, 2] ! 1)])"
  by (simp add: greedy_search_sampling_batch_def greedy_row_def argmax_def unzip_result_def
      top_k_sampling_batch_def top_k_row_def Let_def)

end
